theory Spec2Isabelle
  imports Complex_Main
begin

section \<open>Colour byte code: the model of \<^verbatim>\<open>colorByteCodeUtils.ts\<close>\<close>

text \<open>
  The module prints a payload as a row of coloured blocks under an image and reads it
  back. The embedding follows the TypeScript function by function and keeps its names.

  Numbers. A JavaScript number is a double. Indices, symbols and counts are modelled as
  \<^typ>\<open>int\<close>. A channel value or a pixel coordinate is the rational value of a
  double (\<^typ>\<open>rat\<close>); the block width and the coordinates computed from it are rounded
  to the nearest double after every operation, as the code's arithmetic is. The constant
  \<^verbatim>\<open>255 / (4 - 1)\<close> is exactly 85. A channel read outside the pixel buffer is
  \<^verbatim>\<open>undefined\<close>, and arithmetic on it gives \<^verbatim>\<open>NaN\<close>: a channel is a
  \<^typ>\<open>rat option\<close> with \<^term>\<open>None\<close> for both.
\<close>

subsection \<open>JavaScript primitives used by the module\<close>

text \<open>The remainder operator \<^verbatim>\<open>%\<close> on integers: the sign follows the dividend.\<close>

definition js_rem :: "int \<Rightarrow> int \<Rightarrow> int" where
  "js_rem a b = sgn a * (\<bar>a\<bar> mod \<bar>b\<bar>)"

text \<open>
  \<^verbatim>\<open>Array.prototype.slice(start, end)\<close> and \<^verbatim>\<open>String.prototype.slice\<close>: a negative
  bound counts from the end, both bounds are clamped to the length.
\<close>

definition js_bound :: "int \<Rightarrow> int \<Rightarrow> int" where
  "js_bound n k = (if k < 0 then max (n + k) 0 else min k n)"

definition js_slice :: "int \<Rightarrow> int \<Rightarrow> 'a list \<Rightarrow> 'a list" where
  "js_slice s e xs =
     (let n = int (length xs); k = js_bound n s; f = js_bound n e
      in take (nat (f - k)) (drop (nat k) xs))"

text \<open>\<^verbatim>\<open>slice(start)\<close> with the end omitted runs to the end of the array.\<close>

definition js_slice_from :: "int \<Rightarrow> 'a list \<Rightarrow> 'a list" where
  "js_slice_from s xs = js_slice s (int (length xs)) xs"

text \<open>\<^verbatim>\<open>Array.prototype.findIndex\<close>: the first index whose element passes, or -1.\<close>

fun findIndex_from :: "('a \<Rightarrow> bool) \<Rightarrow> 'a list \<Rightarrow> int \<Rightarrow> int" where
  "findIndex_from P [] i = - 1"
| "findIndex_from P (x # xs) i = (if P x then i else findIndex_from P xs (i + 1))"

definition findIndex :: "('a \<Rightarrow> bool) \<Rightarrow> 'a list \<Rightarrow> int" where
  "findIndex P xs = findIndex_from P xs 0"

text \<open>Reading an array element: \<^verbatim>\<open>undefined\<close> outside the array.\<close>

definition js_nth :: "'a list \<Rightarrow> int \<Rightarrow> 'a option" where
  "js_nth xs i = (if 0 \<le> i \<and> i < int (length xs) then Some (xs ! nat i) else None)"

subsection \<open>Double arithmetic\<close>

text \<open>
  Rounding a rational to the nearest double, ties to the even significand. A positive
  value is doubled or halved until it lies between \<open>2^52\<close> and \<open>2^53\<close>, rounded there
  to an integer, and scaled back. At most 1074 scalings are made: a value still below
  \<open>2^52\<close> after 1074 doublings is rounded on the grid of the subnormal doubles, which
  is gradual underflow. Overflow to infinity (results from \<open>2^1024\<close> on) is not
  modelled; a division by zero is written out where the code can make one.
\<close>

definition round_even :: "rat \<Rightarrow> int" where
  "round_even z =
     (let f = floor z; d = z - of_int f
      in if d < 1 / 2 then f else if 1 / 2 < d then f + 1 else if even f then f else f + 1)"

definition P52 :: rat where "P52 = 2 ^ 52"

definition P53 :: rat where "P53 = 2 ^ 53"

fun scale53 :: "nat \<Rightarrow> rat \<Rightarrow> rat" where
  "scale53 0 z = of_int (round_even z)"
| "scale53 (Suc n) z =
     (if z < P52 then scale53 n (2 * z) / 2
      else if P53 \<le> z then scale53 n (z / 2) * 2
      else of_int (round_even z))"

definition fl :: "rat \<Rightarrow> rat" where
  "fl x = (if x = 0 then 0 else if x < 0 then - scale53 1074 (- x) else scale53 1074 x)"

text \<open>The four operations on doubles, and the number that an integer is read as.\<close>

definition fadd :: "rat \<Rightarrow> rat \<Rightarrow> rat" where "fadd a b = fl (a + b)"

definition fsub :: "rat \<Rightarrow> rat \<Rightarrow> rat" where "fsub a b = fl (a - b)"

definition fmul :: "rat \<Rightarrow> rat \<Rightarrow> rat" where "fmul a b = fl (a * b)"

definition fdiv :: "rat \<Rightarrow> rat \<Rightarrow> rat" where "fdiv a b = fl (a / b)"

definition js_num :: "int \<Rightarrow> rat" where "js_num n = fl (of_int n)"

subsection \<open>Pixels and channels\<close>

type_synonym channel = "rat option"

type_synonym Pixel = "channel \<times> channel \<times> channel"

text \<open>\<^verbatim>\<open>Math.abs(c - v)\<close> and \<^verbatim>\<open>a > b\<close>; every comparison with \<^verbatim>\<open>NaN\<close> is false.\<close>

definition abs_diff :: "rat \<Rightarrow> channel \<Rightarrow> channel" where
  "abs_diff c v = (case v of None \<Rightarrow> None | Some x \<Rightarrow> Some \<bar>c - x\<bar>)"

fun js_gt :: "channel \<Rightarrow> channel \<Rightarrow> bool" where
  "js_gt (Some a) (Some b) = (b < a)"
| "js_gt a b = False"

subsection \<open>Constants and the alphabet table\<close>

definition R_CHANNEL_PARTITION :: int where "R_CHANNEL_PARTITION = 4"
definition G_CHANNEL_PARTITION :: int where "G_CHANNEL_PARTITION = 4"
definition B_CHANNEL_PARTITION :: int where "B_CHANNEL_PARTITION = 4"

definition BASE64_TABLE :: "char list" where
  "BASE64_TABLE = ''ABCDEFGHIJKLMNOPQRSTUVWXYZabcdefghijklmnopqrstuvwxyz0123456789+/=''"

subsection \<open>Quantizer: \<^verbatim>\<open>numToColor\<close>, \<^verbatim>\<open>getNearIndex\<close>, \<^verbatim>\<open>colorToNum\<close>\<close>

definition numToColor :: "int \<Rightarrow> Pixel" where
  "numToColor code =
     (let bCode = js_rem code B_CHANNEL_PARTITION;
          code1 = code div B_CHANNEL_PARTITION;
          gCode = js_rem code1 G_CHANNEL_PARTITION;
          code2 = code1 div G_CHANNEL_PARTITION;
          rCode = js_rem code2 R_CHANNEL_PARTITION
      in (Some (of_int rCode * (255 / (of_int R_CHANNEL_PARTITION - 1))),
          Some (of_int gCode * (255 / (of_int G_CHANNEL_PARTITION - 1))),
          Some (of_int bCode * (255 / (of_int B_CHANNEL_PARTITION - 1)))))"

text \<open>
  The \<^verbatim>\<open>for\<close> loop of \<^verbatim>\<open>getNearIndex\<close>, with the loop variable \<^verbatim>\<open>i\<close> and the two
  mutable locals \<^verbatim>\<open>ret\<close> and \<^verbatim>\<open>preDiff\<close> as arguments; \<^verbatim>\<open>break\<close> returns
  \<^verbatim>\<open>ret\<close>.
\<close>

function getNearIndex_loop :: "channel \<Rightarrow> int \<Rightarrow> rat \<Rightarrow> int \<Rightarrow> int \<Rightarrow> channel \<Rightarrow> int" where
  "getNearIndex_loop v partition_n mx i ret preDiff =
     (if i < partition_n
      then (let diff = abs_diff (of_int i * (mx / (of_int partition_n - 1))) v
            in if js_gt diff preDiff then ret
               else getNearIndex_loop v partition_n mx (i + 1) i diff)
      else ret)"
  by pat_completeness auto
termination
  by (relation "measure (\<lambda>(v, partition_n, mx, i, ret, preDiff). nat (partition_n - i))") auto

declare getNearIndex_loop.simps [simp del]

definition getNearIndex :: "channel \<Rightarrow> int \<Rightarrow> int" where
  "getNearIndex v partition_n = getNearIndex_loop v partition_n 255 0 0 (Some 255)"

definition colorToNum :: "Pixel \<Rightarrow> int" where
  "colorToNum color =
     (case color of (r, g, b) \<Rightarrow>
        (let ret = getNearIndex r R_CHANNEL_PARTITION;
             ret1 = ret * G_CHANNEL_PARTITION + getNearIndex g G_CHANNEL_PARTITION;
             ret2 = ret1 * B_CHANNEL_PARTITION + getNearIndex b B_CHANNEL_PARTITION
         in ret2))"

subsection \<open>Text and colours\<close>

definition base64CharToNum :: "char \<Rightarrow> int" where
  "base64CharToNum c = findIndex (\<lambda>v. v = c) BASE64_TABLE"

definition base64StringToColors :: "string \<Rightarrow> Pixel list" where
  "base64StringToColors str = map (\<lambda>v. numToColor (base64CharToNum v)) str"

definition numToBase64Char :: "int \<Rightarrow> char option" where
  "numToBase64Char index = js_nth BASE64_TABLE index"

text \<open>
  String concatenation \<^verbatim>\<open>p + c\<close> in the \<^verbatim>\<open>reduce\<close> of \<^verbatim>\<open>colorsToBase64String\<close>: an
  \<^verbatim>\<open>undefined\<close> operand is appended as the nine characters of its name.
\<close>

definition js_append :: "string \<Rightarrow> char option \<Rightarrow> string" where
  "js_append p c = (case c of None \<Rightarrow> p @ ''undefined'' | Some x \<Rightarrow> p @ [x])"

definition colorsToBase64String :: "Pixel list \<Rightarrow> string" where
  "colorsToBase64String colors =
     foldl (\<lambda>p c. js_append p (numToBase64Char (colorToNum c))) [] colors"

subsection \<open>Errors and decoded values\<close>

text \<open>
  The module throws two errors of its own, told apart by their message; reading a
  property of \<^verbatim>\<open>undefined\<close> or \<^verbatim>\<open>null\<close> throws the engine's \<^verbatim>\<open>TypeError\<close>.
\<close>

datatype error = Error string | TypeError

text \<open>
  What the object decoder returns (\<^verbatim>\<open>unknown\<close>, read by \<^verbatim>\<open>fromData\<close> as \<^verbatim>\<open>any\<close>).
  An object is an association list; the first binding of a key is the one read.
\<close>

datatype jsval =
    JUndefined
  | JNull
  | JBool bool
  | JNum rat
  | JStr string
  | JArr "jsval list"
  | JObj "(string \<times> jsval) list"

fun js_nullish :: "jsval \<Rightarrow> bool" where
  "js_nullish JUndefined = True"
| "js_nullish JNull = True"
| "js_nullish v = False"

text \<open>
  \<^verbatim>\<open>v.k\<close> for a value that is neither \<^verbatim>\<open>undefined\<close> nor \<^verbatim>\<open>null\<close>. Arrays and strings
  have a \<^verbatim>\<open>length\<close>; no prototype has a member named by one of the keys the module
  reads (\<^verbatim>\<open>o g s r n k c\<close>), so every other read of a primitive is \<^verbatim>\<open>undefined\<close>.
\<close>

fun js_prop :: "jsval \<Rightarrow> string \<Rightarrow> jsval" where
  "js_prop (JObj kvs) k = (case map_of kvs k of None \<Rightarrow> JUndefined | Some v \<Rightarrow> v)"
| "js_prop (JArr xs) k = (if k = ''length'' then JNum (of_nat (length xs)) else JUndefined)"
| "js_prop (JStr s) k = (if k = ''length'' then JNum (of_nat (length s)) else JUndefined)"
| "js_prop v k = JUndefined"

definition js_get :: "jsval \<Rightarrow> string \<Rightarrow> error + jsval" where
  "js_get v k = (if js_nullish v then Inl TypeError else Inr (js_prop v k))"

text \<open>Truthiness, as \<^verbatim>\<open>!v\<close> and \<^verbatim>\<open>v ? a : b\<close> read it.\<close>

fun js_falsy :: "jsval \<Rightarrow> bool" where
  "js_falsy JUndefined = True"
| "js_falsy JNull = True"
| "js_falsy (JBool b) = (b = False)"
| "js_falsy (JNum n) = (n = 0)"
| "js_falsy (JStr s) = (s = [])"
| "js_falsy (JArr xs) = False"
| "js_falsy (JObj kvs) = False"

definition js_truthy :: "jsval \<Rightarrow> bool" where
  "js_truthy v = (if js_falsy v then False else True)"

text \<open>\<^verbatim>\<open>v === n\<close> and \<^verbatim>\<open>v !== n\<close> against a number literal.\<close>

fun js_is_num :: "jsval \<Rightarrow> rat \<Rightarrow> bool" where
  "js_is_num (JNum m) n = (m = n)"
| "js_is_num v n = False"

definition js_not_num :: "jsval \<Rightarrow> rat \<Rightarrow> bool" where
  "js_not_num v n = (if js_is_num v n then False else True)"

record EncodeOptions =
  gridSize :: jsval
  isSwap :: jsval
  isRotate :: jsval
  isNega :: jsval
  hashKey :: jsval

record Decoded =
  encodeOptions :: EncodeOptions
  areas :: jsval
  size :: jsval

subsection \<open>Padding recovery: \<^verbatim>\<open>base64ToObj\<close>\<close>

text \<open>
  \<^verbatim>\<open>window.atob\<close> and the object decoder of \<^verbatim>\<open>@msgpack/msgpack\<close> are not code of the
  module: they are the parameters \<open>atob\<close> (text to binary string) and \<open>decode\<close>
  (bytes to value), each \<^term>\<open>None\<close> where the real one throws. \<open>tryBlock\<close> is the
  body of the \<^verbatim>\<open>try\<close>: any exception in it reaches the \<^verbatim>\<open>catch\<close>.
\<close>

definition tryBlock :: "(string \<Rightarrow> string option) \<Rightarrow> (nat list \<Rightarrow> jsval option) \<Rightarrow> string \<Rightarrow> jsval option" where
  "tryBlock atob decode v =
     (case atob v of None \<Rightarrow> None | Some str \<Rightarrow> decode (map of_char str))"

text \<open>
  The \<^verbatim>\<open>while (retry < 4)\<close> loop. When the loop condition fails the function body ends
  without a \<^verbatim>\<open>return\<close>: the call yields \<^verbatim>\<open>undefined\<close>.
\<close>

function base64ToObj_loop :: "(string \<Rightarrow> string option) \<Rightarrow> (nat list \<Rightarrow> jsval option) \<Rightarrow> string \<Rightarrow> int \<Rightarrow> error + jsval" where
  "base64ToObj_loop atob decode v retry =
     (if retry < 4
      then (case tryBlock atob decode v of
              Some ret \<Rightarrow> Inr ret
            | None \<Rightarrow>
                if js_slice 0 1 (js_slice_from (- (retry + 1)) v) \<noteq> ''A''
                then Inl (Error ''Couldnt Find ColorByteCode.'')
                else if retry > 4
                then Inl (Error ''Couldnt Find ColorByteCode.'')
                else base64ToObj_loop atob decode
                       (js_slice 0 (int (length v) - retry - 1) v @ replicate (nat (retry + 1)) (CHR ''=''))
                       (retry + 1))
      else Inr JUndefined)"
  by pat_completeness auto
termination
  by (relation "measure (\<lambda>(atob, decode, v, retry). nat (4 - retry))") auto

declare base64ToObj_loop.simps [simp del]

definition base64ToObj :: "(string \<Rightarrow> string option) \<Rightarrow> (nat list \<Rightarrow> jsval option) \<Rightarrow> string \<Rightarrow> error + jsval" where
  "base64ToObj atob decode v = base64ToObj_loop atob decode v 0"

subsection \<open>Framing: \<^verbatim>\<open>drawColorByteCodeBlock\<close>\<close>

text \<open>
  \<open>frameColorByteCodes\<close> is the local array \<^verbatim>\<open>colorByteCodes\<close> after the four
  \<^verbatim>\<open>unshift\<close> calls and the \<^verbatim>\<open>if\<close> that places the footer. A cell is a pixel or
  \<^verbatim>\<open>null\<close> (\<^term>\<open>None\<close>).
\<close>

definition frameHeader :: "Pixel list \<Rightarrow> int \<Rightarrow> Pixel list" where
  "frameHeader colorByteCodes blockCountX =
     (let len = int (length colorByteCodes);
          c1 = numToColor (len div 64) # colorByteCodes;
          c2 = numToColor (js_rem len 64) # c1;
          c3 = numToColor 1 # c2;
          c4 = numToColor (blockCountX div 64) # c3
      in c4)"

definition frameColorByteCodes :: "Pixel list \<Rightarrow> int \<Rightarrow> Pixel option list" where
  "frameColorByteCodes colorByteCodes blockCountX =
     (let cs = map Some (frameHeader colorByteCodes blockCountX)
      in if int (length cs) < blockCountX - 1
         then cs @ replicate (nat (blockCountX - int (length cs) - 1)) None
                 @ [Some (numToColor (js_rem blockCountX 64))]
         else js_slice 0 (blockCountX - 1) cs
                 @ [Some (numToColor (js_rem blockCountX 64))]
                 @ js_slice_from (blockCountX - 1) cs)"

text \<open>
  The canvas is the browser's. A drawing is the canvas size and the \<^verbatim>\<open>fillRect\<close> calls
  in order, each with its fill colour. For \<open>blockCountX = 0\<close> the code divides by zero
  and its sizes are not finite; the model is the code for \<open>blockCountX \<ge> 1\<close>. The
  floor and the ceiling of a quotient of two counts (\<^verbatim>\<open>Math.floor(i / blockCountX)\<close>,
  \<^verbatim>\<open>Math.ceil(length / blockCountX)\<close>) are those of the exact quotient: the double
  quotient of two integers of the size of a block index never crosses an integer.
\<close>

record FillRect =
  rx :: rat
  ry :: rat
  rw :: rat
  rh :: rat
  fill :: Pixel

definition drawCell :: "int \<Rightarrow> rat \<Rightarrow> int \<Rightarrow> int \<Rightarrow> Pixel option \<Rightarrow> FillRect list" where
  "drawCell blockCountX blockWidth blockCountY i v =
     (case v of
        None \<Rightarrow> []
      | Some c \<Rightarrow>
          [\<lparr>rx = fmul (js_num (js_rem i blockCountX)) blockWidth,
            ry = fmul (js_num (blockCountY - i div blockCountX - 1)) blockWidth,
            rw = fadd blockWidth 1, rh = fadd blockWidth 1, fill = c\<rparr>])"

definition drawColorByteCodeBlock :: "Pixel list \<Rightarrow> int \<Rightarrow> int \<Rightarrow> (rat \<times> rat) \<times> FillRect list" where
  "drawColorByteCodeBlock colorByteCodes blockCountX w =
     (let blockWidth = fdiv (js_num w) (js_num blockCountX);
          cells = frameColorByteCodes colorByteCodes blockCountX;
          blockCountY = ceiling (of_int (int (length cells)) / (of_int blockCountX :: rat))
      in ((js_num w, fmul blockWidth (js_num blockCountY)),
          concat (map (\<lambda>(i, v). drawCell blockCountX blockWidth blockCountY (int i) v)
                      (enumerate 0 cells))))"

subsection \<open>Reading: \<^verbatim>\<open>getPixelColor\<close> and \<^verbatim>\<open>readColorByteCode\<close>\<close>

record ImageData =
  width :: int
  height :: int
  data :: "nat list"

text \<open>\<^verbatim>\<open>Math.round\<close> rounds a half up; it is exact on the value of its argument.\<close>

definition Math_round :: "rat \<Rightarrow> int" where
  "Math_round x = floor (x + 1 / 2)"

definition getPixelColor :: "ImageData \<Rightarrow> rat \<Rightarrow> rat \<Rightarrow> Pixel" where
  "getPixelColor img x y =
     (let index = (Math_round x + Math_round y * width img) * 4
      in (map_option of_nat (js_nth (data img) index),
          map_option of_nat (js_nth (data img) (index + 1)),
          map_option of_nat (js_nth (data img) (index + 2))))"

text \<open>
  With \<open>blockCountX = 0\<close> the block width \<^verbatim>\<open>width / 0\<close> is not finite, every block
  coordinate is infinite or \<^verbatim>\<open>NaN\<close>, the buffer index is \<^verbatim>\<open>NaN\<close> and the pixel read is
  \<^verbatim>\<open>[undefined, undefined, undefined]\<close>. \<open>blockPixel\<close> is \<^verbatim>\<open>getPixelColor\<close> at a
  coordinate computed from the block width, with that case written out.
\<close>

definition blockPixel :: "ImageData \<Rightarrow> int \<Rightarrow> rat \<Rightarrow> rat \<Rightarrow> Pixel" where
  "blockPixel img blockCountX x y =
     (if blockCountX = 0 then (None, None, None) else getPixelColor img x y)"

definition readBlockCountX :: "ImageData \<Rightarrow> int" where
  "readBlockCountX img =
     (let lNum = colorToNum (getPixelColor img 0 (of_int (height img - 1)));
          rNum = colorToNum (getPixelColor img (of_int (width img - 1)) (of_int (height img - 1)))
      in lNum * 64 + rNum)"

definition readVersion :: "ImageData \<Rightarrow> int" where
  "readVersion img =
     (let blockCountX = readBlockCountX img;
          blockWidth = fdiv (js_num (width img)) (js_num blockCountX)
      in colorToNum (blockPixel img blockCountX
           (fadd blockWidth (fdiv blockWidth 2))
           (fsub (js_num (height img)) (fdiv blockWidth 2))))"

definition readBlockCount :: "ImageData \<Rightarrow> int" where
  "readBlockCount img =
     (let blockCountX = readBlockCountX img;
          blockWidth = fdiv (js_num (width img)) (js_num blockCountX);
          d0 = colorToNum (blockPixel img blockCountX
                 (fadd (fmul blockWidth 2) (fdiv blockWidth 2))
                 (fsub (js_num (height img)) (fdiv blockWidth 2)));
          d1 = colorToNum (blockPixel img blockCountX
                 (fadd (fmul blockWidth 3) (fdiv blockWidth 2))
                 (fsub (js_num (height img)) (fdiv blockWidth 2)))
      in d0 + d1 * 64)"

text \<open>The body of the sampling loop for block index \<open>i\<close>.\<close>

definition readBlock :: "ImageData \<Rightarrow> int \<Rightarrow> Pixel" where
  "readBlock img i =
     (let blockCountX = readBlockCountX img;
          blockWidth = fdiv (js_num (width img)) (js_num blockCountX);
          x = fadd (fmul (js_num (js_rem i blockCountX)) blockWidth) (fdiv blockWidth 2);
          y = fsub (fsub (js_num (height img)) (fmul (js_num (i div blockCountX)) blockWidth))
                (fdiv blockWidth 2)
      in blockPixel img blockCountX x y)"

text \<open>The cut of the payload out of the sampled blocks (the last \<^verbatim>\<open>if\<close> of the function).\<close>

definition mainColors :: "int \<Rightarrow> int \<Rightarrow> 'a list \<Rightarrow> 'a list" where
  "mainColors blockCountX blockCount colors =
     (if blockCount + 4 < blockCountX
      then js_slice 4 (4 + blockCount) colors
      else js_slice 4 (blockCountX - 1) colors @ js_slice_from blockCountX colors)"

definition readColorByteCode :: "ImageData \<Rightarrow> Pixel list" where
  "readColorByteCode img =
     (let blockCountX = readBlockCountX img;
          version = readVersion img;
          blockCount = readBlockCount img;
          colors = map (readBlock img) [0 .. blockCount + 4]
      in mainColors blockCountX blockCount colors)"

subsection \<open>Remap and pipeline: \<^verbatim>\<open>toData\<close>, \<^verbatim>\<open>fromData\<close>, \<^verbatim>\<open>colorByteCodeToData\<close>\<close>

definition flag :: "bool \<Rightarrow> jsval" where
  "flag b = (if b then JNum 1 else JNum 0)"

definition toData :: "EncodeOptions \<Rightarrow> jsval \<Rightarrow> jsval \<Rightarrow> jsval" where
  "toData opts areas_in size_in =
     JObj [(''s'', size_in),
           (''o'', JObj [(''k'', flag (if js_nullish (hashKey opts) then False else True)),
                         (''s'', flag (js_truthy (isSwap opts))),
                         (''n'', flag (js_truthy (isNega opts))),
                         (''g'', gridSize opts),
                         (''r'', flag (js_truthy (isRotate opts)))]),
           (''c'', areas_in)]"

text \<open>
  \<^verbatim>\<open>DEFAULT_KEY\<close> is imported from \<^verbatim>\<open>./definition\<close>, which is not part of the sources:
  it is a parameter. The object literal reads \<^verbatim>\<open>data.o.g\<close> first, which throws when
  \<^verbatim>\<open>data\<close> or \<^verbatim>\<open>data.o\<close> is \<^verbatim>\<open>undefined\<close> or \<^verbatim>\<open>null\<close>; after it no other read can
  throw. In the check, \<^verbatim>\<open>result.encodeOptions\<close> is that fresh object literal, which is
  truthy: the disjunct \<^verbatim>\<open>!result.encodeOptions\<close> is \<^term>\<open>False\<close>.
\<close>

definition fromData :: "string \<Rightarrow> jsval \<Rightarrow> error + Decoded" where
  "fromData DEFAULT_KEY dat =
     (if js_nullish dat then Inl TypeError
      else let o_rec = js_prop dat ''o'' in
        if js_nullish o_rec then Inl TypeError
        else let result =
               \<lparr>encodeOptions =
                  \<lparr>gridSize = js_prop o_rec ''g'',
                   isSwap = js_prop o_rec ''s'',
                   isRotate = js_prop o_rec ''r'',
                   isNega = js_prop o_rec ''n'',
                   hashKey = (if js_truthy (js_prop o_rec ''k'') then JStr DEFAULT_KEY else JNull)\<rparr>,
                areas = js_prop dat ''c'',
                size = js_prop dat ''s''\<rparr>
        in if False
              \<or> js_falsy (areas result)
              \<or> js_is_num (js_prop (areas result) ''length'') 0
              \<or> js_falsy (size result)
              \<or> js_not_num (js_prop (size result) ''length'') 3
           then Inl (Error ''Invalid ColorByteCode Type.'')
           else Inr result)"

definition colorByteCodeToData ::
  "(string \<Rightarrow> string option) \<Rightarrow> (nat list \<Rightarrow> jsval option) \<Rightarrow> string \<Rightarrow> ImageData \<Rightarrow> error + Decoded" where
  "colorByteCodeToData atob decode DEFAULT_KEY imageData =
     (let colors = readColorByteCode imageData;
          base64String = colorsToBase64String colors
      in case base64ToObj atob decode base64String of
           Inl e \<Rightarrow> Inl e
         | Inr dat \<Rightarrow> fromData DEFAULT_KEY dat)"

subsection \<open>The scan of the specification\<close>

text \<open>
  The nearest-level rule as the specification words it: scan the indices in increasing
  order, keep the best index and its distance, accept an index whose distance is at most
  the best so far, stop at the first index whose distance is strictly greater. The
  starting distance 255 is the code's.
\<close>

fun spec_scan :: "rat \<Rightarrow> int list \<Rightarrow> int \<Rightarrow> rat \<Rightarrow> int" where
  "spec_scan v [] best bestDist = best"
| "spec_scan v (i # rest) best bestDist =
     (let d = \<bar>of_int i * 85 - v\<bar>
      in if d \<le> bestDist then spec_scan v rest i d else best)"

subsection \<open>A model of \<^verbatim>\<open>window.atob\<close> for concrete runs\<close>

text \<open>
  \<^verbatim>\<open>window.atob\<close> is the browser's. The functions of the module take it as a parameter;
  concrete runs use this model of the forgiving-base64 decoding of the HTML standard:
  white space is dropped, one or two trailing \<^verbatim>\<open>=\<close> are dropped when the length is a
  multiple of four, a length of one modulo four or any character outside the 64 symbols
  is an error, and every four symbols give three bytes (leftover bits are discarded).
\<close>

definition ascii_whitespace :: "char list" where
  "ascii_whitespace = [CHR 0x09, CHR 0x0A, CHR 0x0C, CHR 0x0D, CHR 0x20]"

definition strip_padding :: "string \<Rightarrow> string" where
  "strip_padding d =
     (if length d mod 4 = 0 \<and> d \<noteq> [] \<and> last d = CHR ''=''
      then (if butlast d \<noteq> [] \<and> last (butlast d) = CHR ''=''
            then butlast (butlast d) else butlast d)
      else d)"

fun sextets_to_bytes :: "nat list \<Rightarrow> nat list" where
  "sextets_to_bytes (a # b # c # d # rest) =
     [a * 4 + b div 16, (b mod 16) * 16 + c div 4, (c mod 4) * 64 + d] @ sextets_to_bytes rest"
| "sextets_to_bytes [a, b, c] = [a * 4 + b div 16, (b mod 16) * 16 + c div 4]"
| "sextets_to_bytes [a, b] = [a * 4 + b div 16]"
| "sextets_to_bytes xs = []"

definition atob_std :: "string \<Rightarrow> string option" where
  "atob_std v =
     (let d = strip_padding (filter (\<lambda>c. c \<notin> set ascii_whitespace) v)
      in if length d mod 4 = 1 then None
         else if list_ex (\<lambda>c. c \<notin> set (take 64 BASE64_TABLE)) d then None
         else Some (map char_of
                (sextets_to_bytes (map (\<lambda>c. nat (findIndex (\<lambda>v. v = c) BASE64_TABLE)) d))))"

subsection \<open>A concrete raster\<close>

text \<open>
  A raster as the encoder draws it for two data blocks in a row of eight blocks, each
  block two pixels wide: 16 by 2 pixels, four bytes (red, green, blue, alpha) per pixel.
  The cells of the row are: block count high digit 0, the version cell, length low digit
  2, length high digit 0, the two data blocks, one transparent placeholder, block count
  low digit 8. The version cell is the parameter.
\<close>

definition blockRow :: "(nat \<times> nat \<times> nat \<times> nat) list \<Rightarrow> nat \<Rightarrow> nat list" where
  "blockRow cells blockWidth =
     concat (map (\<lambda>(r, g, b, a). concat (replicate blockWidth [r, g, b, a])) cells)"

definition rasterRow :: "nat \<times> nat \<times> nat \<times> nat \<Rightarrow> nat list" where
  "rasterRow versionCell =
     blockRow [(0, 0, 0, 255), versionCell, (0, 0, 170, 255), (0, 0, 0, 255),
               (255, 0, 0, 255), (0, 255, 0, 255), (0, 0, 0, 0), (0, 170, 0, 255)] 2"

definition exampleRaster :: "nat \<times> nat \<times> nat \<times> nat \<Rightarrow> ImageData" where
  "exampleRaster versionCell =
     \<lparr>width = 16, height = 2, data = rasterRow versionCell @ rasterRow versionCell\<rparr>"

section \<open>Double rounding\<close>

text \<open>
  Rounding keeps a value that is already a double: it is idempotent, and it is the
  identity on integers and half-integers below \<open>2^53\<close>.
\<close>

lemma P53_P52: "P53 = 2 * P52" by (simp add: P52_def P53_def)
lemma P52_int: "P52 = of_int (2 ^ 52)" by (simp add: P52_def)
lemma P53_int: "P53 = of_int (2 ^ 53)" by (simp add: P53_def)
lemma P52_pos: "0 < P52" by (simp add: P52_def)

lemma round_even_int [simp]: "round_even (of_int i) = i"
  by (simp add: round_even_def)

lemma round_even_le: "z \<le> of_int k \<Longrightarrow> round_even z \<le> k"
proof -
  assume a: "z \<le> of_int k"
  show ?thesis
  proof (cases "z = of_int k")
    case True
    then show ?thesis by simp
  next
    case False
    with a have "z < of_int k" by simp
    then have "floor z < k" by (simp add: floor_less_iff)
    then have "floor z + 1 \<le> k" by simp
    then show ?thesis by (auto simp: round_even_def Let_def)
  qed
qed

lemma round_even_ge: "of_int k \<le> z \<Longrightarrow> k \<le> round_even z"
proof -
  assume "of_int k \<le> z"
  then have "k \<le> floor z" by (simp add: le_floor_iff)
  then show ?thesis by (auto simp: round_even_def Let_def)
qed

lemma round_even_le_P53: "z \<le> P53 \<Longrightarrow> of_int (round_even z) \<le> P53"
  unfolding P53_int by (simp only: of_int_le_iff round_even_le)

lemma round_even_ge_P52: "P52 \<le> z \<Longrightarrow> P52 \<le> of_int (round_even z)"
  unfolding P52_int by (simp only: of_int_le_iff round_even_ge)

lemma round_even_nonneg: "0 \<le> z \<Longrightarrow> 0 \<le> round_even z"
  using round_even_ge[of 0 z] by simp

lemma round_even_P52: "of_int (round_even P52) = P52"
  unfolding P52_int by (simp only: round_even_int)

lemma scale53_P52: "scale53 n P52 = P52"
proof (cases n)
  case 0
  then show ?thesis by (simp add: round_even_P52)
next
  case (Suc m)
  have "\<not> P53 \<le> P52" using P52_pos by (simp add: P53_P52)
  then show ?thesis using Suc by (simp add: round_even_P52)
qed

lemma scale53_le: "z \<le> P53 \<Longrightarrow> scale53 n z \<le> P53"
proof (induction n arbitrary: z)
  case 0
  then show ?case by (simp add: round_even_le_P53)
next
  case (Suc n)
  show ?case
  proof (cases "z < P52")
    case True
    then have "2 * z \<le> P53" by (simp add: P53_P52)
    from Suc.IH[OF this] True P52_pos show ?thesis by (simp add: P53_P52)
  next
    case False
    show ?thesis
    proof (cases "P53 \<le> z")
      case True
      with Suc.prems have "z = P53" by simp
      then have "z / 2 = P52" by (simp add: P53_P52)
      with True False show ?thesis by (simp add: scale53_P52 P53_P52)
    next
      case F2: False
      with False Suc.prems show ?thesis by (simp add: round_even_le_P53)
    qed
  qed
qed

lemma scale53_ge: "P52 \<le> z \<Longrightarrow> P52 \<le> scale53 n z"
proof (induction n arbitrary: z)
  case 0
  then show ?case by (simp add: round_even_ge_P52)
next
  case (Suc n)
  show ?case
  proof (cases "P53 \<le> z")
    case True
    then have "P52 \<le> z / 2" by (simp add: P53_P52)
    from Suc.IH[OF this] True Suc.prems P52_pos show ?thesis by simp
  next
    case False
    with Suc.prems show ?thesis by (simp add: round_even_ge_P52)
  qed
qed

lemma scale53_nonneg: "0 \<le> z \<Longrightarrow> 0 \<le> scale53 n z"
proof (induction n arbitrary: z)
  case 0
  then show ?case by (simp add: round_even_nonneg)
next
  case (Suc n)
  have a: "0 \<le> scale53 n (2 * z)" using Suc.IH[of "2 * z"] Suc.prems by simp
  have b: "0 \<le> scale53 n (z / 2)" using Suc.IH[of "z / 2"] Suc.prems by simp
  show ?case using a b Suc.prems by (simp add: round_even_nonneg)
qed

lemma scale53_idem: "scale53 n (scale53 n z) = scale53 n z"
proof (induction n arbitrary: z)
  case 0
  show ?case by simp
next
  case (Suc n)
  show ?case
  proof (cases "z < P52")
    case True
    define r where "r = scale53 n (2 * z)"
    have ih: "scale53 n r = r" unfolding r_def by (rule Suc.IH)
    have le: "r \<le> P53" unfolding r_def using True by (intro scale53_le) (simp add: P53_P52)
    have s: "scale53 (Suc n) z = r / 2" using True by (simp add: r_def)
    show ?thesis
    proof (cases "r / 2 < P52")
      case T2: True
      then show ?thesis unfolding s using ih by simp
    next
      case F2: False
      with le have "r = P53" by (simp add: P53_P52)
      then have h: "r / 2 = P52" by (simp add: P53_P52)
      show ?thesis unfolding s h by (rule scale53_P52)
    qed
  next
    case False
    show ?thesis
    proof (cases "P53 \<le> z")
      case True
      define r where "r = scale53 n (z / 2)"
      have ih: "scale53 n r = r" unfolding r_def by (rule Suc.IH)
      have ge: "P52 \<le> r" unfolding r_def using True by (intro scale53_ge) (simp add: P53_P52)
      have s: "scale53 (Suc n) z = r * 2" using True False by (simp add: r_def)
      have "P53 \<le> r * 2" "\<not> r * 2 < P52" using ge P52_pos by (simp_all add: P53_P52)
      then show ?thesis unfolding s using ih by simp
    next
      case F2: False
      define i where "i = round_even z"
      have s: "scale53 (Suc n) z = of_int i" using False F2 by (simp add: i_def)
      have lo: "P52 \<le> of_int i" unfolding i_def using False by (intro round_even_ge_P52) simp
      have hi: "of_int i \<le> P53" unfolding i_def using F2 by (intro round_even_le_P53) simp
      show ?thesis
      proof (cases "of_int i = P53")
        case True
        then have "of_int i / 2 = P52" by (simp add: P53_P52)
        then show ?thesis unfolding s using True lo P52_pos
          by (simp add: scale53_P52 P53_P52)
      next
        case F3: False
        with hi have "\<not> P53 \<le> of_int i" by simp
        moreover have "\<not> of_int i < P52" using lo by simp
        ultimately show ?thesis unfolding s by simp
      qed
    qed
  qed
qed

lemma fl_idem: "fl (fl x) = fl x"
proof (cases "x = 0")
  case True
  then show ?thesis by (simp add: fl_def)
next
  case False
  show ?thesis
  proof (cases "x < 0")
    case True
    define r where "r = scale53 1074 (- x)"
    have r0: "0 \<le> r" unfolding r_def using True by (intro scale53_nonneg) simp
    have f: "fl x = - r" using True by (simp add: fl_def r_def)
    have i: "scale53 1074 r = r" unfolding r_def by (rule scale53_idem)
    show ?thesis
    proof (cases "r = 0")
      case T2: True
      then show ?thesis unfolding f by (simp add: fl_def)
    next
      case F2: False
      with r0 have "- r < 0" "- r \<noteq> 0" by simp_all
      then show ?thesis unfolding f using i by (simp add: fl_def)
    qed
  next
    case F1: False
    define r where "r = scale53 1074 x"
    have r0: "0 \<le> r" unfolding r_def using F1 by (intro scale53_nonneg) simp
    have f: "fl x = r" using False F1 by (simp add: fl_def r_def)
    have i: "scale53 1074 r = r" unfolding r_def by (rule scale53_idem)
    show ?thesis
    proof (cases "r = 0")
      case T2: True
      then show ?thesis unfolding f by (simp add: fl_def)
    next
      case F2: False
      with r0 have "\<not> r < 0" by simp
      with F2 show ?thesis unfolding f using i by (simp add: fl_def)
    qed
  qed
qed

lemma scale53_exact:
  assumes "0 \<le> z" "k \<le> n" "z * 2 ^ k = of_int i" "z * 2 ^ k < P53"
  shows "scale53 n z = z"
  using assms
proof (induction n arbitrary: z k i)
  case 0
  then have "z = of_int i" by simp
  then show ?case by simp
next
  case (Suc n)
  have zk: "z \<le> z * 2 ^ k" using Suc.prems(1) by (simp add: mult_le_cancel_left1)
  show ?case
  proof (cases "z < P52")
    case True
    show ?thesis
    proof (cases k)
      case 0
      with Suc.prems have zi: "z = of_int i" by simp
      have "scale53 n (2 * z) = 2 * z"
      proof (rule Suc.IH[of "2 * z" 0 "2 * i"])
        show "0 \<le> 2 * z" using Suc.prems(1) by simp
        show "2 * z * 2 ^ 0 = of_int (2 * i)" using zi by simp
        show "2 * z * 2 ^ 0 < P53" using True by (simp add: P53_P52)
      qed simp
      with True show ?thesis by simp
    next
      case (Suc j)
      have "scale53 n (2 * z) = 2 * z"
      proof (rule Suc.IH[of "2 * z" j i])
        show "0 \<le> 2 * z" using Suc.prems(1) by simp
        show "j \<le> n" using Suc.prems(2) Suc by simp
        show "2 * z * 2 ^ j = of_int i" using Suc.prems(3) Suc by (simp add: mult.assoc mult.left_commute)
        show "2 * z * 2 ^ j < P53" using Suc.prems(4) Suc by (simp add: mult.assoc mult.left_commute)
      qed
      with True show ?thesis by simp
    qed
  next
    case False
    from zk Suc.prems(4) have lt: "z < P53" by simp
    have "k = 0"
    proof (rule ccontr)
      assume "k \<noteq> 0"
      then obtain j where j: "k = Suc j" by (cases k) auto
      have "(1::rat) \<le> 2 ^ j" by simp
      then have "z * 2 \<le> z * 2 * 2 ^ j" using Suc.prems(1) by (simp add: mult_le_cancel_left1)
      then have "z * 2 \<le> z * 2 ^ k" by (simp add: j mult.assoc)
      with Suc.prems(4) False show False by (simp add: P53_P52)
    qed
    with Suc.prems(3) have "z = of_int i" by simp
    with False lt show ?thesis by simp
  qed
qed

lemma fl_half_int:
  assumes "0 \<le> m" "of_int m < P53"
  shows "fl (of_int m / 2) = of_int m / 2"
proof (cases "m = 0")
  case True
  then show ?thesis by (simp add: fl_def)
next
  case False
  with assms have p: "(0::rat) < of_int m / 2" by simp
  have "scale53 1074 (of_int m / 2) = of_int m / 2"
  proof (rule scale53_exact[of _ 1 _ m])
    show "(0::rat) \<le> of_int m / 2" using p by simp
    show "of_int m / 2 * 2 ^ 1 = (of_int m :: rat)" by simp
    show "of_int m / 2 * 2 ^ 1 < P53" using assms by simp
  qed simp
  with p show ?thesis by (simp add: fl_def)
qed

lemma fl_int:
  assumes "0 \<le> m" "of_int m < P53"
  shows "fl (of_int m) = of_int m"
proof -
  have "of_int (2 * m) / 2 = (of_int m :: rat)" by simp
  have "scale53 1074 (of_int m) = of_int m"
  proof (rule scale53_exact[of _ 0 _ m])
    show "(0::rat) \<le> of_int m" using assms by simp
  qed (use assms in simp_all)
  then show ?thesis using assms by (simp add: fl_def)
qed

lemma js_num_0: "js_num 0 = 0"
  by (simp add: js_num_def fl_def)

lemma js_num_1: "js_num 1 = 1"
  using fl_int[of 1] by (simp add: js_num_def P53_def)

lemma fmul_0: "fmul 0 b = 0"
  by (simp add: fmul_def fl_def)

lemma fmul_1_fl: "fmul 1 (fl b) = fl b"
  by (simp add: fmul_def fl_idem)

lemma fsub_0_fl: "fsub (fl a) 0 = fl a"
  by (simp add: fsub_def fl_idem)

lemma fl_minus: "fl (- x) = - fl x"
  by (simp add: fl_def)

lemma P53_bound: "\<bar>m\<bar> < 2 ^ 52 \<Longrightarrow> \<bar>of_int m :: rat\<bar> < P53"
proof -
  assume "\<bar>m\<bar> < 2 ^ 52"
  then have "\<bar>m\<bar> < 2 ^ 53" by simp
  then have "(of_int \<bar>m\<bar> :: rat) < of_int (2 ^ 53)" by (simp only: of_int_less_iff)
  then show ?thesis by (simp add: P53_def)
qed

lemma fl_exact_half:
  assumes "\<bar>m\<bar> < 2 ^ 52"
  shows "fl (of_int m / 2) = of_int m / 2"
proof (cases "0 \<le> m")
  case True
  with P53_bound[OF assms] show ?thesis by (intro fl_half_int) simp_all
next
  case False
  then have "0 \<le> - m" by simp
  moreover have "of_int (- m) < P53" using P53_bound[OF assms] False by simp
  ultimately have "fl (of_int (- m) / 2) = of_int (- m) / 2" by (rule fl_half_int)
  then have "fl (- (of_int m / 2)) = - (of_int m / 2)" by simp
  then show ?thesis by (simp only: fl_minus)
qed

lemma fl_exact_int:
  assumes "\<bar>m\<bar> < 2 ^ 52"
  shows "fl (of_int m) = of_int m"
proof -
  have "\<bar>2 * m\<bar> < 2 ^ 53" using assms by simp
  have "fl (of_int m) = fl (- (- of_int m))" by simp
  show ?thesis
  proof (cases "0 \<le> m")
    case True
    with P53_bound[OF assms] show ?thesis by (intro fl_int) simp_all
  next
    case False
    then have "0 \<le> - m" by simp
    moreover have "of_int (- m) < P53" using P53_bound[OF assms] False by simp
    ultimately have "fl (of_int (- m)) = of_int (- m)" by (rule fl_int)
    then have "fl (- of_int m) = - of_int m" by simp
    then show ?thesis by (simp only: fl_minus)
  qed
qed

lemma js_num_exact: "\<bar>n\<bar> < 2 ^ 52 \<Longrightarrow> js_num n = of_int n"
  by (simp add: js_num_def fl_exact_int)

lemma fmul_exact: "\<bar>a * b\<bar> < 2 ^ 52 \<Longrightarrow> fmul (of_int a) (of_int b) = of_int (a * b)"
  using fl_exact_int[of "a * b"] by (simp add: fmul_def)

lemma fdiv_exact:
  "b \<noteq> 0 \<Longrightarrow> \<bar>q\<bar> < 2 ^ 52 \<Longrightarrow> fdiv (of_int (q * b)) (of_int b) = of_int q"
  using fl_exact_int[of q] by (simp add: fdiv_def)

lemma fhalf_exact: "\<bar>b\<bar> < 2 ^ 52 \<Longrightarrow> fdiv (of_int b) 2 = of_int b / 2"
  using fl_exact_half[of b] by (simp add: fdiv_def)

lemma fadd_half_exact:
  "\<bar>2 * a + b\<bar> < 2 ^ 52 \<Longrightarrow> fadd (of_int a) (of_int b / 2) = of_int (2 * a + b) / 2"
  using fl_exact_half[of "2 * a + b"] by (simp add: fadd_def add_divide_distrib)

lemma fsub_half_exact:
  "\<bar>2 * a - b\<bar> < 2 ^ 52 \<Longrightarrow> fsub (of_int a) (of_int b / 2) = of_int (2 * a - b) / 2"
  using fl_exact_half[of "2 * a - b"] by (simp add: fsub_def diff_divide_distrib)

lemma fsub_exact: "\<bar>a - b\<bar> < 2 ^ 52 \<Longrightarrow> fsub (of_int a) (of_int b) = of_int (a - b)"
  using fl_exact_int[of "a - b"] by (simp add: fsub_def)

lemma fadd_one_exact: "\<bar>b + 1\<bar> < 2 ^ 52 \<Longrightarrow> fadd (of_int b) 1 = of_int (b + 1)"
  using fl_exact_int[of "b + 1"] by (simp add: fadd_def)

lemma Math_round_half: "Math_round (of_int m / 2) = (m + 1) div 2"
proof -
  have "(of_int m / 2 + 1 / 2 :: rat) = of_int (m + 1) / of_int 2" by (simp add: add_divide_distrib)
  then show ?thesis unfolding Math_round_def by (simp only: floor_divide_of_int_eq)
qed


section \<open>Quantizer\<close>

text \<open>
  Unrolled over the four levels, the scan of \<^verbatim>\<open>getNearIndex\<close> cuts the channel range at
  the three midpoints 42.5, 127.5 and 212.5; a midpoint belongs to the upper level.
\<close>

lemma getNearIndex_thresholds:
  assumes "0 \<le> v" "v \<le> 255"
  shows "getNearIndex (Some v) 4 =
     (if v * 2 < 85 then 0 else if v * 2 < 255 then 1 else if v * 2 < 425 then 2 else 3)"
  using assms
  apply (simp add: getNearIndex_def getNearIndex_loop.simps abs_diff_def Let_def)
  apply (simp add: abs_if)
  done

lemma spec_scan_thresholds:
  assumes "0 \<le> v" "v \<le> 255"
  shows "spec_scan v [0, 1, 2, 3] 0 255 =
     (if v * 2 < 85 then 0 else if v * 2 < 255 then 1 else if v * 2 < 425 then 2 else 3)"
  using assms
  apply (simp add: Let_def)
  apply (simp add: abs_if)
  done

text \<open>An undefined channel makes every distance \<^verbatim>\<open>NaN\<close>: the scan never stops early.\<close>

lemma getNearIndex_undefined: "getNearIndex None 4 = 3"
  by (simp add: getNearIndex_def getNearIndex_loop.simps abs_diff_def Let_def)

lemma js_rem_nonneg: "0 \<le> a \<Longrightarrow> js_rem a b = a mod \<bar>b\<bar>"
  by (cases "a = 0") (simp_all add: js_rem_def)

lemma getNearIndex_level:
  assumes "0 \<le> d" "d \<le> 3"
  shows "getNearIndex (Some (of_int d * 85)) 4 = d"
proof -
  from assms have "d = 0 \<or> d = 1 \<or> d = 2 \<or> d = 3" by arith
  then show ?thesis
    by (elim disjE) (simp_all add: getNearIndex_thresholds)
qed

lemma div4_div4: "(s::int) div 4 div 4 = s div 16"
  by (simp add: zdiv_zmult2_eq)

lemma numToColor_digits:
  assumes "0 \<le> s"
  shows "numToColor s = (Some (of_int (s div 16 mod 4) * 85), Some (of_int (s div 4 mod 4) * 85),
            Some (of_int (s mod 4) * 85))"
proof -
  have a: "0 \<le> s div 4" "0 \<le> s div 4 div 4" using assms by simp_all
  show ?thesis
    unfolding numToColor_def Let_def R_CHANNEL_PARTITION_def
        G_CHANNEL_PARTITION_def B_CHANNEL_PARTITION_def
    using assms a by (simp add: js_rem_nonneg div4_div4)
qed

lemma digits_recompose:
  assumes "0 \<le> s" "s \<le> 63"
  shows "(s div 16 mod 4 * 4 + s div 4 mod 4) * 4 + s mod 4 = (s::int)"
proof -
  have "s div 16 mod 4 = s div 16" using assms by simp
  moreover have "s div 4 mod 4 = s div 4 - 4 * (s div 16)"
    by (simp add: minus_mult_div_eq_mod[symmetric] div4_div4 del: minus_mult_div_eq_mod)
  moreover have "s mod 4 = s - 4 * (s div 4)"
    by (simp add: minus_mult_div_eq_mod[symmetric] del: minus_mult_div_eq_mod)
  ultimately show ?thesis by simp
qed

lemma colorToNum_numToColor:
  assumes "0 \<le> s" "s \<le> 63"
  shows "colorToNum (numToColor s) = s"
proof -
  have d: "0 \<le> s div 16 mod 4" "s div 16 mod 4 \<le> 3" "0 \<le> s div 4 mod 4" "s div 4 mod 4 \<le> 3"
    "0 \<le> s mod 4" "s mod 4 \<le> 3" by simp_all
  have "colorToNum (numToColor s) = (s div 16 mod 4 * 4 + s div 4 mod 4) * 4 + s mod 4"
    unfolding numToColor_digits[OF assms(1)] colorToNum_def Let_def prod.case
       R_CHANNEL_PARTITION_def G_CHANNEL_PARTITION_def B_CHANNEL_PARTITION_def
    by (simp only: getNearIndex_level[OF d(1,2)] getNearIndex_level[OF d(3,4)] getNearIndex_level[OF d(5,6)])
  then show ?thesis by (simp only: digits_recompose[OF assms])
qed

text \<open>
  Claim C2. Quantizer round trip: for every symbol \<open>s\<close> from 0 to 63, turning \<open>s\<close> into
  a pixel with \<^verbatim>\<open>numToColor\<close> and the pixel back into a symbol with \<^verbatim>\<open>colorToNum\<close>
  returns \<open>s\<close>.
\<close>

theorem quantizer_roundtrip:
  assumes "0 \<le> s" "s \<le> 63"
  shows "colorToNum (numToColor s) = s"
  using assms by (rule colorToNum_numToColor)

theorem quantizer_roundtrip_witness:
  "(0::int) \<le> 27 \<and> (27::int) \<le> 63
   \<and> numToColor 27 = (Some 85, Some 170, Some 255)
   \<and> colorToNum (Some 85, Some 170, Some 255) = 27"
proof -
  have c: "numToColor 27 = (Some 85, Some 170, Some 255)"
    by (simp add: numToColor_digits)
  from quantizer_roundtrip[of 27] c show ?thesis by simp
qed

text \<open>
  Claim C9. Nearest-level tie-break: for every channel value \<open>v\<close> from 0 to 255 the index
  returned by \<^verbatim>\<open>getNearIndex\<close> is the one the scan of the specification finds (indices
  0 to 3 in increasing order, an index accepted when its distance to level \<open>i * 85\<close> is at
  most the best so far, the scan stopped at the first strictly greater distance). When
  two levels are both nearest to \<open>v\<close>, the higher index is returned; and the level
  returned is always a nearest one.
\<close>

theorem getNearIndex_scan_tie_break:
  assumes "0 \<le> v" "v \<le> 255"
  shows "getNearIndex (Some v) 4 = spec_scan v [0, 1, 2, 3] 0 255
    \<and> (\<forall>i j. 0 \<le> i \<and> i < j \<and> j \<le> 3 \<and> \<bar>of_int i * 85 - v\<bar> = \<bar>of_int j * 85 - v\<bar>
             \<and> (\<forall>k. 0 \<le> k \<and> k \<le> 3 \<longrightarrow> \<bar>of_int i * 85 - v\<bar> \<le> \<bar>of_int k * 85 - v\<bar>)
           \<longrightarrow> getNearIndex (Some v) 4 = j)
    \<and> (\<forall>j. 0 \<le> j \<and> j \<le> 3
           \<longrightarrow> \<bar>of_int (getNearIndex (Some v) 4) * 85 - v\<bar> \<le> \<bar>of_int j * 85 - v\<bar>)"
proof (intro conjI allI impI)
  show "getNearIndex (Some v) 4 = spec_scan v [0, 1, 2, 3] 0 255"
    by (simp only: getNearIndex_thresholds[OF assms] spec_scan_thresholds[OF assms])
next
  fix i j :: int
  assume h: "0 \<le> i \<and> i < j \<and> j \<le> 3 \<and> \<bar>of_int i * 85 - v\<bar> = \<bar>of_int j * 85 - v\<bar>
             \<and> (\<forall>k. 0 \<le> k \<and> k \<le> 3 \<longrightarrow> \<bar>of_int i * 85 - v\<bar> \<le> \<bar>of_int k * 85 - v\<bar>)"
  then have a: "\<And>k. 0 \<le> k \<Longrightarrow> k \<le> 3 \<Longrightarrow> \<bar>of_int i * 85 - v\<bar> \<le> \<bar>of_int k * 85 - v\<bar>"
    by blast
  have m: "\<bar>of_int i * 85 - v\<bar> \<le> \<bar>0 - v\<bar>" "\<bar>of_int i * 85 - v\<bar> \<le> \<bar>85 - v\<bar>"
    "\<bar>of_int i * 85 - v\<bar> \<le> \<bar>170 - v\<bar>" "\<bar>of_int i * 85 - v\<bar> \<le> \<bar>255 - v\<bar>"
    using a[of 0] a[of 1] a[of 2] a[of 3] by simp_all
  from h have e: "\<bar>of_int i * 85 - v\<bar> = \<bar>of_int j * 85 - v\<bar>" by simp
  from h have "(i = 0 \<and> j = 1) \<or> (i = 0 \<and> j = 2) \<or> (i = 0 \<and> j = 3) \<or> (i = 1 \<and> j = 2)
      \<or> (i = 1 \<and> j = 3) \<or> (i = 2 \<and> j = 3)" by arith
  with e m show "getNearIndex (Some v) 4 = j"
    unfolding getNearIndex_thresholds[OF assms]
    by (elim disjE) (auto simp: abs_if split: if_splits)
next
  fix j :: int
  assume "0 \<le> j \<and> j \<le> 3"
  then have "j = 0 \<or> j = 1 \<or> j = 2 \<or> j = 3" by arith
  then show "\<bar>of_int (getNearIndex (Some v) 4) * 85 - v\<bar> \<le> \<bar>of_int j * 85 - v\<bar>"
    unfolding getNearIndex_thresholds[OF assms]
    by (elim disjE) (auto simp: abs_if split: if_splits)
qed

theorem getNearIndex_scan_tie_break_witness:
  "(0::rat) \<le> 255 / 2 \<and> (255 / 2 :: rat) \<le> 255
   \<and> \<bar>of_int 1 * 85 - 255 / 2\<bar> = \<bar>of_int 2 * 85 - (255 / 2 :: rat)\<bar>
   \<and> getNearIndex (Some (255 / 2)) 4 = 2
   \<and> spec_scan (255 / 2) [0, 1, 2, 3] 0 255 = 2"
  using getNearIndex_scan_tie_break[of "255 / 2"]
  by (simp add: Let_def)

section \<open>Text and colours\<close>

lemma findIndex_from_absent:
  "c \<notin> set xs \<Longrightarrow> findIndex_from (\<lambda>v. v = c) xs k = - 1"
  by (induction xs arbitrary: k) auto

lemma findIndex_from_present:
  "c \<in> set xs \<Longrightarrow>
     k \<le> findIndex_from (\<lambda>v. v = c) xs k
     \<and> findIndex_from (\<lambda>v. v = c) xs k < k + int (length xs)
     \<and> xs ! nat (findIndex_from (\<lambda>v. v = c) xs k - k) = c"
proof (induction xs arbitrary: k)
  case Nil
  then show ?case by simp
next
  case (Cons x xs)
  show ?case
  proof (cases "x = c")
    case True
    then show ?thesis by simp
  next
    case False
    with Cons.prems have "c \<in> set xs" by simp
    note ih = Cons.IH[OF this, of "k + 1"]
    define r where "r = findIndex_from (\<lambda>v. v = c) xs (k + 1)"
    from ih have b: "k + 1 \<le> r" "r < k + 1 + int (length xs)" "xs ! nat (r - (k + 1)) = c"
      by (simp_all add: r_def)
    from b(1) have "nat (r - k) = Suc (nat (r - (k + 1)))" by arith
    with b False show ?thesis by (simp add: r_def[symmetric])
  qed
qed

lemma table_length: "length BASE64_TABLE = 65"
  by (simp add: BASE64_TABLE_def)

lemma table_distinct: "distinct BASE64_TABLE"
  by (simp add: BASE64_TABLE_def)

lemma base64CharToNum_absent: "c \<notin> set BASE64_TABLE \<Longrightarrow> base64CharToNum c = - 1"
  by (simp add: base64CharToNum_def findIndex_def findIndex_from_absent)

lemma base64CharToNum_present:
  assumes "c \<in> set BASE64_TABLE"
  shows "0 \<le> base64CharToNum c \<and> base64CharToNum c \<le> 64
     \<and> BASE64_TABLE ! nat (base64CharToNum c) = c"
  using findIndex_from_present[OF assms, of 0]
  by (simp add: base64CharToNum_def findIndex_def table_length)

lemma base64CharToNum_pad: "base64CharToNum (CHR ''='') = 64"
  by (simp add: base64CharToNum_def findIndex_def BASE64_TABLE_def)

lemma base64CharToNum_A: "base64CharToNum (CHR ''A'') = 0"
  by (simp add: base64CharToNum_def findIndex_def BASE64_TABLE_def)

lemma table_last: "BASE64_TABLE ! 64 = CHR ''=''"
  by (simp add: BASE64_TABLE_def)


lemma numToColor_64: "numToColor 64 = (Some 0, Some 0, Some 0)"
  by (simp add: numToColor_digits)

lemma numToColor_0: "numToColor 0 = (Some 0, Some 0, Some 0)"
  by (simp add: numToColor_digits)

lemma numToColor_neg1: "numToColor (- 1) = (Some (- 85), Some (- 85), Some (- 85))"
  by (simp add: numToColor_def Let_def js_rem_def R_CHANNEL_PARTITION_def
        G_CHANNEL_PARTITION_def B_CHANNEL_PARTITION_def)

lemma numToBase64Char_0: "numToBase64Char 0 = Some (CHR ''A'')"
  by (simp add: numToBase64Char_def js_nth_def BASE64_TABLE_def)

lemma readback_char:
  assumes "c \<in> set BASE64_TABLE"
  shows "numToBase64Char (colorToNum (numToColor (base64CharToNum c)))
           = Some (if c = CHR ''='' then CHR ''A'' else c)"
proof (cases "c = CHR ''=''")
  case True
  have "colorToNum (numToColor 64) = 0"
    using colorToNum_numToColor[of 0] by (simp add: numToColor_64 numToColor_0)
  with True show ?thesis by (simp add: base64CharToNum_pad numToBase64Char_0)
next
  case False
  define n where "n = base64CharToNum c"
  from base64CharToNum_present[OF assms]
  have p: "0 \<le> n" "n \<le> 64" "BASE64_TABLE ! nat n = c" by (simp_all add: n_def)
  have "n \<noteq> 64"
  proof
    assume "n = 64"
    with p(3) have "c = CHR ''=''" by (simp add: table_last)
    with False show False by simp
  qed
  with p have q: "n \<le> 63" by simp
  have "colorToNum (numToColor n) = n" using p(1) q by (rule colorToNum_numToColor)
  moreover have "numToBase64Char n = Some c"
    using p q by (simp add: numToBase64Char_def js_nth_def table_length)
  ultimately show ?thesis using False by (simp add: n_def)
qed

lemma colorsToBase64String_fold:
  "foldl (\<lambda>p c. js_append p (f c)) acc xs
     = acc @ concat (map (\<lambda>c. case f c of None \<Rightarrow> ''undefined'' | Some x \<Rightarrow> [x]) xs)"
  by (induction xs arbitrary: acc) (simp_all add: js_append_def split: option.splits)

lemma readback_text:
  assumes "set t \<subseteq> set BASE64_TABLE"
  shows "colorsToBase64String (base64StringToColors t)
           = map (\<lambda>c. if c = CHR ''='' then CHR ''A'' else c) t"
  using assms
proof (induction t)
  case Nil
  then show ?case by (simp add: colorsToBase64String_def base64StringToColors_def)
next
  case (Cons c t)
  then have c: "c \<in> set BASE64_TABLE" and t: "set t \<subseteq> set BASE64_TABLE" by simp_all
  from Cons.IH[OF t] readback_char[OF c] show ?case
    by (simp add: colorsToBase64String_def base64StringToColors_def colorsToBase64String_fold)
qed

text \<open>
  Claim C10. The padding sentinel \<^verbatim>\<open>=\<close> is entry 64 of the 65-entry table. The
  text-to-colours path gives it the pixel \<open>[0, 0, 0]\<close>, the pixel of symbol 0 (the
  character \<^verbatim>\<open>A\<close>), so it reads back as \<^verbatim>\<open>A\<close>: a text over the table that ends in
  \<open>n\<close> padding characters reads back with \<open>n\<close> trailing \<^verbatim>\<open>A\<close>s, the text that
  the retry loop of \<^verbatim>\<open>base64ToObj\<close> looks for.
\<close>

theorem padding_sentinel_reads_back_as_A:
  "length BASE64_TABLE = 65
   \<and> numToBase64Char 64 = Some (CHR ''='')
   \<and> base64CharToNum (CHR ''='') = 64
   \<and> base64CharToNum (CHR ''A'') = 0
   \<and> base64StringToColors ''='' = [(Some 0, Some 0, Some 0)]
   \<and> base64StringToColors ''='' = base64StringToColors ''A''
   \<and> colorsToBase64String (base64StringToColors ''='') = ''A''
   \<and> (set t \<subseteq> set BASE64_TABLE \<longrightarrow>
        colorsToBase64String (base64StringToColors (t @ replicate n (CHR ''='')))
          = map (\<lambda>c. if c = CHR ''='' then CHR ''A'' else c) t @ replicate n (CHR ''A''))"
proof (intro conjI impI)
  show "numToBase64Char 64 = Some (CHR ''='')"
    by (simp add: numToBase64Char_def js_nth_def BASE64_TABLE_def)
  show "base64StringToColors ''='' = [(Some 0, Some 0, Some 0)]"
    by (simp add: base64StringToColors_def base64CharToNum_pad numToColor_64)
  show "base64StringToColors ''='' = base64StringToColors ''A''"
    by (simp add: base64StringToColors_def base64CharToNum_pad base64CharToNum_A
        numToColor_64 numToColor_0)
  have pad: "CHR ''='' \<in> set BASE64_TABLE" by (simp add: BASE64_TABLE_def)
  then show "colorsToBase64String (base64StringToColors ''='') = ''A''"
    using readback_text[of "''=''"] by simp
  assume "set t \<subseteq> set BASE64_TABLE"
  with pad have "set (t @ replicate n (CHR ''='')) \<subseteq> set BASE64_TABLE" by auto
  from readback_text[OF this]
  show "colorsToBase64String (base64StringToColors (t @ replicate n (CHR ''='')))
          = map (\<lambda>c. if c = CHR ''='' then CHR ''A'' else c) t @ replicate n (CHR ''A'')"
    by simp
qed (simp_all add: table_length base64CharToNum_pad base64CharToNum_A)

theorem padding_sentinel_reads_back_as_A_witness:
  "set ''gaM'' \<subseteq> set BASE64_TABLE
   \<and> colorsToBase64String (base64StringToColors (''gaM'' @ replicate 1 (CHR ''=''))) = ''gaMA''"
proof -
  have s: "set ''gaM'' \<subseteq> set BASE64_TABLE" by (simp add: BASE64_TABLE_def)
  from padding_sentinel_reads_back_as_A[of "''gaM''" 1] s show ?thesis by simp
qed

text \<open>
  Claim C7, as stated: a text holding a character outside the 64-character alphabet makes
  the text-to-colours conversion fail. The code has no failing path: \<^verbatim>\<open>findIndex\<close>
  answers -1 for the exclamation mark and \<^verbatim>\<open>numToColor\<close> turns -1 into a pixel.
\<close>

theorem base64StringToColors_unknown_char_counterexample:
  "CHR ''!'' \<notin> set BASE64_TABLE
   \<and> base64StringToColors ''a!'' = [(Some 85, Some 170, Some 170), (Some (- 85), Some (- 85), Some (- 85))]"
proof -
  have a: "CHR ''!'' \<notin> set BASE64_TABLE" by (simp add: BASE64_TABLE_def)
  have b: "base64CharToNum (CHR ''a'') = 26"
    by (simp add: base64CharToNum_def findIndex_def BASE64_TABLE_def)
  have c: "numToColor 26 = (Some 85, Some 170, Some 170)" by (simp add: numToColor_digits)
  show ?thesis using a b c
    by (simp add: base64StringToColors_def base64CharToNum_absent numToColor_neg1)
qed

text \<open>
  Claim C7, amended. \<^verbatim>\<open>base64StringToColors\<close> never fails and returns one pixel per
  character. A character outside the 65-entry table gets the index -1 and the pixel
  \<open>[-85, -85, -85]\<close>; the padding sentinel \<^verbatim>\<open>=\<close> gets the pixel \<open>[0, 0, 0]\<close>.
\<close>

theorem base64StringToColors_never_fails:
  "length (base64StringToColors str) = length str
   \<and> (\<forall>i. i < length str \<and> str ! i \<notin> set BASE64_TABLE \<longrightarrow>
          base64CharToNum (str ! i) = - 1
          \<and> base64StringToColors str ! i = (Some (- 85), Some (- 85), Some (- 85)))
   \<and> (\<forall>i. i < length str \<and> str ! i = CHR ''='' \<longrightarrow>
          base64StringToColors str ! i = (Some 0, Some 0, Some 0))"
  by (simp add: base64StringToColors_def base64CharToNum_absent numToColor_neg1
      base64CharToNum_pad numToColor_64)

theorem base64StringToColors_never_fails_witness:
  "(1::nat) < length ''a!'' \<and> ''a!'' ! 1 \<notin> set BASE64_TABLE
   \<and> length (base64StringToColors ''a!'') = 2
   \<and> base64CharToNum (''a!'' ! 1) = - 1
   \<and> base64StringToColors ''a!'' ! 1 = (Some (- 85), Some (- 85), Some (- 85))"
proof -
  have a: "''a!'' ! 1 \<notin> set BASE64_TABLE" by (simp add: BASE64_TABLE_def)
  note t = base64StringToColors_never_fails[of "''a!''"]
  from t have l: "length (base64StringToColors ''a!'') = length ''a!''"
    by (rule conjunct1)
  from t have "\<forall>i. i < length ''a!'' \<and> ''a!'' ! i \<notin> set BASE64_TABLE \<longrightarrow>
          base64CharToNum (''a!'' ! i) = - 1
          \<and> base64StringToColors ''a!'' ! i = (Some (- 85), Some (- 85), Some (- 85))"
    by (rule conjunct1[OF conjunct2])
  then have "1 < length ''a!'' \<and> ''a!'' ! 1 \<notin> set BASE64_TABLE \<longrightarrow>
          base64CharToNum (''a!'' ! 1) = - 1
          \<and> base64StringToColors ''a!'' ! 1 = (Some (- 85), Some (- 85), Some (- 85))"
    by (rule spec)
  with a l show ?thesis by simp
qed

section \<open>Framing and extraction\<close>

lemma js_slice_nonneg:
  "0 \<le> s \<Longrightarrow> 0 \<le> e \<Longrightarrow> js_slice s e xs = take (nat e - nat s) (drop (nat s) xs)"
  by (auto simp: js_slice_def js_bound_def Let_def min_def nat_diff_distrib')

lemma js_slice_from_nonneg: "0 \<le> s \<Longrightarrow> js_slice_from s xs = drop (nat s) xs"
  by (auto simp: js_slice_from_def js_slice_def js_bound_def Let_def min_def)

lemma frameHeader_cells:
  "frameHeader cs bcx =
     [numToColor (bcx div 64), numToColor 1, numToColor (int (length cs) mod 64),
      numToColor (int (length cs) div 64)] @ cs"
  by (simp add: frameHeader_def Let_def js_rem_nonneg)

lemma length_frameHeader: "length (frameHeader cs bcx) = length cs + 4"
  by (simp add: frameHeader_cells)

lemma frameColorByteCodes_cases:
  assumes "1 \<le> bcx"
  shows "frameColorByteCodes cs bcx =
     (if int (length cs) + 4 < bcx - 1
      then map Some (frameHeader cs bcx) @ replicate (nat (bcx - int (length cs) - 5)) None
             @ [Some (numToColor (bcx mod 64))]
      else take (nat (bcx - 1)) (map Some (frameHeader cs bcx))
             @ [Some (numToColor (bcx mod 64))]
             @ drop (nat (bcx - 1)) (map Some (frameHeader cs bcx)))"
  using assms
  by (simp add: frameColorByteCodes_def Let_def length_frameHeader js_slice_nonneg
      js_slice_from_nonneg js_rem_nonneg algebra_simps)


lemma nth_at_length: "length xs = n \<Longrightarrow> (xs @ a # ys) ! n = a"
  by auto

lemma frame_footer_index:
  assumes "1 \<le> bcx"
  shows "frameColorByteCodes cs bcx ! nat (bcx - 1) = Some (numToColor (bcx mod 64))"
proof (cases "int (length cs) + 4 < bcx - 1")
  case True
  then have l: "length (map Some (frameHeader cs bcx) @ replicate (nat (bcx - int (length cs) - 5)) None)
      = nat (bcx - 1)"
    by (simp add: length_frameHeader)
  have "frameColorByteCodes cs bcx =
     (map Some (frameHeader cs bcx) @ replicate (nat (bcx - int (length cs) - 5)) None)
       @ Some (numToColor (bcx mod 64)) # []"
    using True by (simp add: frameColorByteCodes_cases[OF assms])
  then show ?thesis by (simp only: nth_at_length[OF l])
next
  case False
  then have l: "length (take (nat (bcx - 1)) (map Some (frameHeader cs bcx))) = nat (bcx - 1)"
    by (simp add: length_frameHeader)
  have "frameColorByteCodes cs bcx =
     take (nat (bcx - 1)) (map Some (frameHeader cs bcx))
       @ Some (numToColor (bcx mod 64)) # drop (nat (bcx - 1)) (map Some (frameHeader cs bcx))"
    using False by (simp add: frameColorByteCodes_cases[OF assms])
  then show ?thesis by (simp only: nth_at_length[OF l])
qed

lemma length_frame:
  assumes "1 \<le> bcx"
  shows "int (length (frameColorByteCodes cs bcx)) = max bcx (int (length cs) + 5)"
  using assms
  by (auto simp: frameColorByteCodes_cases length_frameHeader)

lemma fills_of_cells:
  "map fill (concat (map (\<lambda>(i, v). drawCell bcx bw bcy (int i) v) (enumerate n cells)))
     = map the (filter (\<lambda>v. v \<noteq> None) cells)"
  by (induction cells arbitrary: n) (auto simp: drawCell_def split: option.splits)

lemma fills_of_drawing:
  "map fill (snd (drawColorByteCodeBlock cs bcx w))
     = map the (filter (\<lambda>v. v \<noteq> None) (frameColorByteCodes cs bcx))"
  by (simp add: drawColorByteCodeBlock_def Let_def fills_of_cells)


text \<open>
  Claim C3. Framing layout: for a data colour sequence of length \<open>L\<close> and a row of
  \<open>blockCountX\<close> blocks (at least one block per row; with none the code divides by
  zero), the cells built for rendering are the header \<open>blockCountX div 64\<close>, 1,
  \<open>L mod 64\<close>, \<open>L div 64\<close>, then the data, with the footer \<open>blockCountX mod 64\<close> at
  linear index \<open>blockCountX - 1\<close>. When header and data have fewer than
  \<open>blockCountX - 1\<close> cells, placeholder cells pad row 0 up to column \<open>blockCountX - 2\<close>
  and the footer ends the row; otherwise the footer is spliced in as the
  \<open>blockCountX\<close>-th cell and the later cells move on. Placeholders are not drawn: the
  fill colours of the drawing are the cells that hold a pixel, in order.
\<close>

theorem frame_layout:
  assumes "1 \<le> blockCountX"
  shows "(let L = int (length cs);
              header = [numToColor (blockCountX div 64), numToColor 1,
                        numToColor (L mod 64), numToColor (L div 64)];
              footer = numToColor (blockCountX mod 64);
              cells = frameColorByteCodes cs blockCountX
          in cells =
               (if L + 4 < blockCountX - 1
                then map Some (header @ cs) @ replicate (nat (blockCountX - 1 - (L + 4))) None
                       @ [Some footer]
                else take (nat (blockCountX - 1)) (map Some (header @ cs)) @ [Some footer]
                       @ drop (nat (blockCountX - 1)) (map Some (header @ cs)))
             \<and> cells ! nat (blockCountX - 1) = Some footer
             \<and> int (length cells) = max blockCountX (L + 5)
             \<and> map fill (snd (drawColorByteCodeBlock cs blockCountX w))
                 = map the (filter (\<lambda>v. v \<noteq> None) cells))"
proof -
  have a: "blockCountX - 1 - (int (length cs) + 4) = blockCountX - int (length cs) - 5"
    by simp
  show ?thesis
    unfolding Let_def a
    using frameColorByteCodes_cases[OF assms, of cs] frame_footer_index[OF assms, of cs]
      length_frame[OF assms, of cs] fills_of_drawing[of cs blockCountX w]
    by (simp only: frameHeader_cells simp_thms)
qed


theorem frame_layout_witness:
  "(1::int) \<le> 8
   \<and> frameColorByteCodes [(Some 255, Some 0, Some 0), (Some 0, Some 255, Some 0)] 8
       = [Some (numToColor 0), Some (numToColor 1), Some (numToColor 2), Some (numToColor 0),
          Some (Some 255, Some 0, Some 0), Some (Some 0, Some 255, Some 0), None,
          Some (numToColor 8)]"
  using frame_layout[of 8 "[(Some 255, Some 0, Some 0), (Some 0, Some 255, Some 0)]" 16]
  by (simp add: Let_def)

lemma mainColors_one_row:
  assumes "int (length d) + 4 < bcx" "length h = 4"
  shows "mainColors bcx (int (length d)) ((h @ d) @ rest) = d"
  using assms by (simp add: mainColors_def js_slice_nonneg)

lemma mainColors_rows:
  assumes "5 \<le> bcx" "bcx \<le> int (length d) + 4" "length h = 4"
  shows "mainColors bcx (int (length d))
           (take (nat (bcx - 1)) (h @ d) @ [f] @ drop (nat (bcx - 1)) (h @ d)) = d"
proof -
  define k where "k = nat (bcx - 5)"
  have n: "nat (bcx - 1) = 4 + k" "nat bcx = 5 + k" "k \<le> length d"
    using assms by (simp_all add: k_def)
  have t: "take (4 + k) (h @ d) = h @ take k d" using assms(3) by simp
  have r: "drop (4 + k) (h @ d) = drop k d" using assms(3) by simp
  have "mainColors bcx (int (length d)) ((h @ take k d) @ [f] @ drop k d)
      = take k d @ drop k d"
    using assms n by (simp add: mainColors_def js_slice_nonneg js_slice_from_nonneg min_def)
  then show ?thesis by (simp only: n t r append_take_drop_id)
qed

text \<open>
  Claim C4, as stated: framing any data sequence and cutting the payload back out with
  the rule of \<^verbatim>\<open>readColorByteCode\<close> returns the data. In a row of four blocks the footer is
  spliced into the header, and the cut keeps the last header cell in front of the data.
\<close>

theorem frame_extract_narrow_row_counterexample:
  "mainColors 4 (int (length [(Some 255, Some 0, Some 0)]))
      (frameColorByteCodes [(Some 255, Some 0, Some 0)] 4)
     = [Some (Some 0, Some 0, Some 0), Some (Some 255, Some 0, Some 0)]
   \<and> mainColors 4 (int (length [(Some 255, Some 0, Some 0)]))
      (frameColorByteCodes [(Some 255, Some 0, Some 0)] 4)
     \<noteq> map Some [(Some 255, Some 0, Some 0)]"
proof -
  have "frameColorByteCodes [(Some 255, Some 0, Some 0)] 4
      = [Some (numToColor 0), Some (numToColor 1), Some (numToColor 1), Some (numToColor 4),
         Some (numToColor 0), Some (Some 255, Some 0, Some 0)]"
    by (simp add: frameColorByteCodes_cases frameHeader_cells)
  then show ?thesis
    by (simp add: mainColors_def js_slice_nonneg js_slice_from_nonneg numToColor_0)
qed

text \<open>
  Claim C4, amended. In a row of at least five blocks (room for the four header cells and
  the footer), framing a data sequence and cutting the payload out of the framed cells,
  or out of the first \<open>L + 5\<close> of them as the reader samples them, returns exactly the
  data, whether the payload fits in row 0 or runs over two or more rows.
\<close>

theorem frame_extract_roundtrip:
  assumes "5 \<le> blockCountX"
  shows "mainColors blockCountX (int (length cs)) (frameColorByteCodes cs blockCountX) = map Some cs
     \<and> mainColors blockCountX (int (length cs))
           (take (length cs + 5) (frameColorByteCodes cs blockCountX)) = map Some cs"
proof -
  define h where "h = map Some [numToColor (blockCountX div 64), numToColor 1,
      numToColor (int (length cs) mod 64), numToColor (int (length cs) div 64)]"
  define d where "d = map Some cs"
  define f where "f = Some (numToColor (blockCountX mod 64))"
  have lh: "length h = 4" and ld: "length d = length cs" by (simp_all add: h_def d_def)
  have hd: "map Some (frameHeader cs blockCountX) = h @ d"
    by (simp add: frameHeader_cells h_def d_def)
  have one: "1 \<le> blockCountX" using assms by simp
  note fr = frameColorByteCodes_cases[OF one, of cs, unfolded hd f_def[symmetric]]
  have "mainColors blockCountX (int (length cs)) (frameColorByteCodes cs blockCountX) = d
     \<and> mainColors blockCountX (int (length cs))
           (take (length cs + 5) (frameColorByteCodes cs blockCountX)) = d"
  proof (cases "int (length cs) + 4 < blockCountX - 1")
    case True
    then have c: "int (length d) + 4 < blockCountX" by (simp add: ld)
    from True have p: "0 < nat (blockCountX - int (length cs) - 5)" by simp
    have e: "frameColorByteCodes cs blockCountX
        = (h @ d) @ (replicate (nat (blockCountX - int (length cs) - 5)) None @ [f])"
      using True by (simp add: fr)
    have "take (length cs + 5) ((h @ d) @ (replicate (nat (blockCountX - int (length cs) - 5)) None @ [f]))
        = (h @ d) @ take 1 (replicate (nat (blockCountX - int (length cs) - 5)) None @ [f])"
      by (simp add: lh ld)
    with e mainColors_one_row[OF c lh] show ?thesis by (simp only: ld)
  next
    case False
    show ?thesis
    proof (cases "int (length cs) + 4 < blockCountX")
      case True
      with False have q: "blockCountX - 1 = int (length cs) + 4" by simp
      from True have c: "int (length d) + 4 < blockCountX" by (simp add: ld)
      have e: "frameColorByteCodes cs blockCountX = (h @ d) @ [f]"
        using False by (simp add: fr q lh ld)
      have "take (length cs + 5) ((h @ d) @ [f]) = (h @ d) @ [f]" by (simp add: lh ld)
      with e mainColors_one_row[OF c lh] show ?thesis by (simp only: ld)
    next
      case False
      then have c: "blockCountX \<le> int (length d) + 4" by (simp add: ld)
      have e: "frameColorByteCodes cs blockCountX
        = take (nat (blockCountX - 1)) (h @ d) @ [f] @ drop (nat (blockCountX - 1)) (h @ d)"
        using \<open>\<not> int (length cs) + 4 < blockCountX - 1\<close> by (simp add: fr)
      have "length (frameColorByteCodes cs blockCountX) = length cs + 5"
        using length_frame[OF one, of cs] False by simp
      then have "take (length cs + 5) (frameColorByteCodes cs blockCountX)
        = frameColorByteCodes cs blockCountX" by simp
      with e mainColors_rows[OF assms c lh] show ?thesis by (simp only: ld)
    qed
  qed
  then show ?thesis by (simp only: d_def)
qed


theorem frame_extract_roundtrip_witness:
  "(5::int) \<le> 8
   \<and> mainColors 8 2 (take 7 (frameColorByteCodes [(Some 255, Some 0, Some 0), (Some 0, Some 255, Some 0)] 8))
       = [Some (Some 255, Some 0, Some 0), Some (Some 0, Some 255, Some 0)]
   \<and> mainColors 8 20 (frameColorByteCodes (map numToColor [10 .. 29]) 8)
       = map Some (map numToColor [10 .. 29])"
  using frame_extract_roundtrip[of 8 "[(Some 255, Some 0, Some 0), (Some 0, Some 255, Some 0)]"]
    frame_extract_roundtrip[of 8 "map numToColor [10 .. 29]"]
  by simp

section \<open>Padding recovery\<close>

text \<open>
  One turn of the loop of \<^verbatim>\<open>base64ToObj\<close>: a successful decode returns; a failed one
  throws unless the character \<open>retry + 1\<close> places from the end is \<^verbatim>\<open>A\<close>, and otherwise
  the last \<open>retry + 1\<close> characters are replaced by padding and the loop goes on.
\<close>

lemma tail_char:
  assumes "length s = Suc k"
  shows "js_slice 0 1 (js_slice_from (- (int k + 1)) (t @ s)) = [hd s]"
proof -
  from assms obtain c r where s: "s = c # r" by (cases s) auto
  have "nat (int (length t) + int (length s) - (int k + 1)) = length t"
    using assms by simp
  then show ?thesis using assms s
    by (simp add: js_slice_def js_slice_from_def js_bound_def Let_def)
qed

lemma retry_text:
  assumes "length s = Suc k"
  shows "js_slice 0 (int (length (t @ s)) - int k - 1) (t @ s) = t"
  using assms by (simp add: js_slice_def js_bound_def Let_def)

lemma base64ToObj_loop_retry:
  assumes "retry < 4" "0 \<le> retry" "tryBlock atob decode (t @ s) = None"
    "length s = Suc (nat retry)" "hd s = CHR ''A''"
  shows "base64ToObj_loop atob decode (t @ s) retry
       = base64ToObj_loop atob decode (t @ replicate (nat (retry + 1)) (CHR ''='')) (retry + 1)"
proof -
  have a: "js_slice 0 1 (js_slice_from (- (retry + 1)) (t @ s)) = ''A''"
    using tail_char[OF assms(4), of t] assms(2,5) by simp
  have b: "js_slice 0 (int (length (t @ s)) - retry - 1) (t @ s) = t"
    using retry_text[OF assms(4), of t] assms(2) by simp
  have c: "\<not> retry > 4" using assms(1) by simp
  show ?thesis
    by (subst base64ToObj_loop.simps) (simp only: assms(1,3) a b c if_True option.case simp_thms if_False)
qed

lemma base64ToObj_loop_stop:
  assumes "retry < 4" "tryBlock atob decode v = None"
    "js_slice 0 1 (js_slice_from (- (retry + 1)) v) \<noteq> ''A''"
  shows "base64ToObj_loop atob decode v retry = Inl (Error ''Couldnt Find ColorByteCode.'')"
  by (subst base64ToObj_loop.simps) (use assms in simp)

lemma base64ToObj_loop_success:
  assumes "retry < 4" "tryBlock atob decode v = Some ret"
  shows "base64ToObj_loop atob decode v retry = Inr ret"
  by (subst base64ToObj_loop.simps) (simp add: assms)

lemma base64ToObj_loop_end: "base64ToObj_loop atob decode v 4 = Inr JUndefined"
  by (subst base64ToObj_loop.simps) simp

text \<open>
  Claim C6 says that when every retry is used up, decoding fails, and that no result is
  returned without a successful decode. The code throws from inside the loop only: its
  guard \<^verbatim>\<open>retry > 4\<close> is never true under \<^verbatim>\<open>while (retry < 4)\<close>. When the decode
  fails four times (as written, and with one, two and three trailing characters turned
  into padding) and the characters one to four places from the end are all \<^verbatim>\<open>A\<close>,
  the loop ends and \<^verbatim>\<open>base64ToObj\<close> returns \<^verbatim>\<open>undefined\<close>, not an error.
\<close>

theorem base64ToObj_exhausted_returns_undefined:
  assumes "tryBlock atob decode (t @ ''AAAA'') = None"
    and "tryBlock atob decode (t @ ''AAA='') = None"
    and "tryBlock atob decode (t @ ''AA=='') = None"
    and "tryBlock atob decode (t @ ''A==='') = None"
  shows "base64ToObj atob decode (t @ ''AAAA'') = Inr JUndefined"
proof -
  have "base64ToObj atob decode (t @ ''AAAA'')
      = base64ToObj_loop atob decode ((t @ ''AAA'') @ ''A'') 0"
    by (simp add: base64ToObj_def)
  also have "\<dots> = base64ToObj_loop atob decode ((t @ ''AA'') @ ''A='') 1"
    using base64ToObj_loop_retry[of 0 atob decode "t @ ''AAA''" "''A''"] assms(1) by simp
  also have "\<dots> = base64ToObj_loop atob decode ((t @ ''A'') @ ''A=='') 2"
    using base64ToObj_loop_retry[of 1 atob decode "t @ ''AA''" "''A=''"] assms(2)
    by (simp add: numeral_eq_Suc)
  also have "\<dots> = base64ToObj_loop atob decode (t @ ''A==='') 3"
    using base64ToObj_loop_retry[of 2 atob decode "t @ ''A''" "''A==''"] assms(3)
    by (simp add: numeral_eq_Suc)
  also have "\<dots> = base64ToObj_loop atob decode (t @ ''===='') 4"
    using base64ToObj_loop_retry[of 3 atob decode "t" "''A===''"] assms(4)
    by (simp add: numeral_eq_Suc)
  finally show ?thesis by (simp add: base64ToObj_loop_end)
qed

theorem base64ToObj_exhausted_returns_undefined_witness:
  "tryBlock atob_std (\<lambda>bytes. Some JNull) ''AAAAA'' = None
   \<and> tryBlock atob_std (\<lambda>bytes. Some JNull) ''AAAA='' = None
   \<and> tryBlock atob_std (\<lambda>bytes. Some JNull) ''AAA=='' = None
   \<and> tryBlock atob_std (\<lambda>bytes. Some JNull) ''AA==='' = None
   \<and> base64ToObj atob_std (\<lambda>bytes. Some JNull) ''AAAAA'' = Inr JUndefined"
proof -
  have a: "atob_std ''AAAAA'' = None" "atob_std ''AAAA='' = None"
    "atob_std ''AAA=='' = None" "atob_std ''AA==='' = None"
    by (simp_all add: atob_std_def strip_padding_def ascii_whitespace_def Let_def
        BASE64_TABLE_def)
  then have b: "tryBlock atob_std (\<lambda>bytes. Some JNull) (''A'' @ ''AAAA'') = None"
    "tryBlock atob_std (\<lambda>bytes. Some JNull) (''A'' @ ''AAA='') = None"
    "tryBlock atob_std (\<lambda>bytes. Some JNull) (''A'' @ ''AA=='') = None"
    "tryBlock atob_std (\<lambda>bytes. Some JNull) (''A'' @ ''A==='') = None"
    by (simp_all add: tryBlock_def)
  from base64ToObj_exhausted_returns_undefined[OF b] b show ?thesis by simp
qed

section \<open>Remap between the wire object and the domain record\<close>

lemma fromData_structure_checks:
  assumes "js_nullish o_rec = False"
  shows "fromData dk (JObj [(''s'', sz), (''o'', o_rec), (''c'', c)]) =
     (if js_falsy c \<or> js_is_num (js_prop c ''length'') 0
         \<or> js_falsy sz \<or> js_not_num (js_prop sz ''length'') 3
      then Inl (Error ''Invalid ColorByteCode Type.'')
      else Inr \<lparr>encodeOptions =
                  \<lparr>gridSize = js_prop o_rec ''g'', isSwap = js_prop o_rec ''s'',
                   isRotate = js_prop o_rec ''r'', isNega = js_prop o_rec ''n'',
                   hashKey = (if js_truthy (js_prop o_rec ''k'') then JStr dk else JNull)\<rparr>,
                areas = c, size = sz\<rparr>)"
  using assms by (simp add: fromData_def Let_def)

lemma fromData_rejects:
  "fromData dk (JObj [(''s'', JArr [w, h, d]), (''o'', JObj kvs), (''c'', JArr [])])
     = Inl (Error ''Invalid ColorByteCode Type.'')"
  "fromData dk (JObj [(''s'', JArr [w, h, d]), (''o'', JObj kvs)])
     = Inl (Error ''Invalid ColorByteCode Type.'')"
  "fromData dk (JObj [(''s'', JArr [w, h]), (''o'', JObj kvs), (''c'', JArr (a # as))])
     = Inl (Error ''Invalid ColorByteCode Type.'')"
  "fromData dk (JObj [(''o'', JObj kvs), (''c'', JArr (a # as))])
     = Inl (Error ''Invalid ColorByteCode Type.'')"
  by (simp_all add: fromData_def Let_def js_not_num_def)

lemma js_truthy_flag: "js_truthy (flag b) = b"
  by (simp add: js_truthy_def flag_def)

text \<open>
  Claim C8 says that a wire object without its option sub-record fails with the module's
  structural error. \<^verbatim>\<open>fromData\<close> reads \<^verbatim>\<open>data.o.g\<close> before its check, and the check
  tests the object literal it has just built: when \<^verbatim>\<open>o\<close> is absent or \<^verbatim>\<open>null\<close> (or the
  decoded value itself is \<^verbatim>\<open>undefined\<close>), the engine's \<^verbatim>\<open>TypeError\<close> is thrown, not
  \<^verbatim>\<open>Invalid ColorByteCode Type.\<close>, although the area list and the size are valid.
\<close>

theorem fromData_missing_options_TypeError:
  "fromData dk (JObj [(''s'', JArr [w, h, d]), (''c'', JArr (a # as))]) = Inl TypeError
   \<and> fromData dk JUndefined = Inl TypeError
   \<and> fromData dk (JObj [(''s'', JArr [w, h, d]), (''o'', JNull), (''c'', JArr (a # as))])
       = Inl TypeError"
  by (simp add: fromData_def)

text \<open>
  Claim C1, as stated: the remap \<^verbatim>\<open>fromData(toData(encodeOptions, areas, size))\<close>
  reproduces the options, hash key and boolean flags included. The wire object holds
  only the presence of a key and the flags as 1 or 0: a key other than the default one
  comes back as the default key, and \<^verbatim>\<open>true\<close> comes back as the number 1.
\<close>

theorem remap_roundtrip_counterexample:
  "fromData ''default-key''
     (toData \<lparr>gridSize = JNum 8, isSwap = JBool True, isRotate = JBool False,
               isNega = JBool False, hashKey = JStr ''secret''\<rparr>
        (JArr [JArr [JNum 0, JNum 0, JNum 8, JNum 8]]) (JArr [JNum 640, JNum 480, JNum 0]))
   = Inr \<lparr>encodeOptions =
            \<lparr>gridSize = JNum 8, isSwap = JNum 1, isRotate = JNum 0,
             isNega = JNum 0, hashKey = JStr ''default-key''\<rparr>,
          areas = JArr [JArr [JNum 0, JNum 0, JNum 8, JNum 8]],
          size = JArr [JNum 640, JNum 480, JNum 0]\<rparr>
   \<and> fromData ''default-key''
     (toData \<lparr>gridSize = JNum 8, isSwap = JBool True, isRotate = JBool False,
               isNega = JBool False, hashKey = JStr ''secret''\<rparr>
        (JArr [JArr [JNum 0, JNum 0, JNum 8, JNum 8]]) (JArr [JNum 640, JNum 480, JNum 0]))
   \<noteq> Inr \<lparr>encodeOptions =
            \<lparr>gridSize = JNum 8, isSwap = JBool True, isRotate = JBool False,
             isNega = JBool False, hashKey = JStr ''secret''\<rparr>,
          areas = JArr [JArr [JNum 0, JNum 0, JNum 8, JNum 8]],
          size = JArr [JNum 640, JNum 480, JNum 0]\<rparr>"
  by (simp add: fromData_def toData_def Let_def js_truthy_def flag_def js_not_num_def)

text \<open>
  Claim C1, amended. For every option record, every non-empty area list and every size
  vector of three elements, \<^verbatim>\<open>fromData(toData(encodeOptions, areas, size))\<close> succeeds
  and reproduces the grid size, the areas and the size; each flag comes back as the
  number 1 or 0 with the truthiness of the original flag; the hash key comes back as
  \<^verbatim>\<open>null\<close> when the original is \<^verbatim>\<open>null\<close> or \<^verbatim>\<open>undefined\<close>, and as \<^verbatim>\<open>DEFAULT_KEY\<close>
  otherwise.
\<close>

theorem remap_roundtrip:
  "fromData dk (toData opts (JArr (a # as)) (JArr [w, h, d])) =
     Inr \<lparr>encodeOptions =
            \<lparr>gridSize = gridSize opts,
             isSwap = flag (js_truthy (isSwap opts)),
             isRotate = flag (js_truthy (isRotate opts)),
             isNega = flag (js_truthy (isNega opts)),
             hashKey = (if js_nullish (hashKey opts) then JNull else JStr dk)\<rparr>,
          areas = JArr (a # as), size = JArr [w, h, d]\<rparr>
   \<and> js_truthy (flag (js_truthy (isSwap opts))) = js_truthy (isSwap opts)
   \<and> js_truthy (flag (js_truthy (isRotate opts))) = js_truthy (isRotate opts)
   \<and> js_truthy (flag (js_truthy (isNega opts))) = js_truthy (isNega opts)"
  by (simp add: fromData_def toData_def Let_def js_truthy_flag js_not_num_def)

section \<open>Reading a raster: the version cell\<close>

text \<open>
  The payload cut never reaches back to index 1 when a row has at least two blocks: it
  depends on the sampled blocks from index 2 on and on their number only.
\<close>

text \<open>Block coordinates when the row is cut into blocks of a whole number of pixels.\<close>

lemma readBlock_exact:
  assumes bcx: "readBlockCountX img = bcx" and w: "width img = bcx * b"
    and pos: "1 \<le> bcx" "1 \<le> b" and wb: "bcx * b < 2 ^ 30"
    and h: "0 \<le> height img" "height img < 2 ^ 44"
    and i: "0 \<le> i" "i < 2 ^ 13"
  shows "readBlock img i =
     getPixelColor img (of_int (2 * ((i mod bcx) * b) + b) / 2)
       (of_int (2 * (height img - (i div bcx) * b) - b) / 2)"
proof -
  have b30: "b < 2 ^ 30"
  proof -
    have "b * 1 \<le> b * bcx" using pos by (intro mult_left_mono) simp_all
    with wb show ?thesis by (simp add: mult.commute)
  qed
  have c30: "bcx < 2 ^ 30"
  proof -
    have "bcx * 1 \<le> bcx * b" using pos by (intro mult_left_mono) simp_all
    with wb show ?thesis by simp
  qed
  have m: "0 \<le> i mod bcx" "i mod bcx < bcx" using pos by simp_all
  have d: "0 \<le> i div bcx" "i div bcx \<le> i"
  proof -
    show "0 \<le> i div bcx" using pos i by (simp add: pos_imp_zdiv_nonneg_iff)
    have "i div bcx \<le> i div 1" using pos i by (intro zdiv_mono2) simp_all
    then show "i div bcx \<le> i" by simp
  qed
  have mb: "0 \<le> (i mod bcx) * b" "(i mod bcx) * b < 2 ^ 30"
  proof -
    show "0 \<le> (i mod bcx) * b" using m pos by simp
    have "i mod bcx \<le> bcx" using m by simp
    then have "(i mod bcx) * b \<le> bcx * b" using pos by (intro mult_right_mono) simp_all
    with wb show "(i mod bcx) * b < 2 ^ 30" by simp
  qed
  have db: "0 \<le> (i div bcx) * b" "(i div bcx) * b < 2 ^ 43"
  proof -
    show "0 \<le> (i div bcx) * b" using d pos by simp
    have "i div bcx \<le> 2 ^ 13" using d i by simp
    then have "(i div bcx) * b \<le> 2 ^ 13 * b" using pos by (intro mult_right_mono) simp_all
    also have "\<dots> < 2 ^ 13 * 2 ^ 30" using b30 by simp
    finally show "(i div bcx) * b < 2 ^ 43" by simp
  qed
  have bw: "fdiv (js_num (width img)) (js_num bcx) = of_int b"
  proof -
    have "js_num (width img) = of_int (b * bcx)" using wb pos
      by (simp add: w js_num_exact mult.commute)
    moreover have "js_num bcx = of_int bcx" using c30 pos by (simp add: js_num_exact)
    ultimately show ?thesis using fdiv_exact[of bcx b] pos b30
      by (simp del: of_int_mult)
  qed
  have r: "js_rem i bcx = i mod bcx" using i pos by (simp add: js_rem_nonneg)
  have x1: "fmul (js_num (i mod bcx)) (of_int b) = of_int ((i mod bcx) * b)"
  proof -
    have "js_num (i mod bcx) = of_int (i mod bcx)" using m c30 by (simp add: js_num_exact)
    then show ?thesis using fmul_exact[of "i mod bcx" b] mb by simp
  qed
  have hb: "fdiv (of_int b) 2 = of_int b / 2" using b30 pos by (simp add: fhalf_exact)
  have x2: "fadd (of_int ((i mod bcx) * b)) (of_int b / 2) = of_int (2 * ((i mod bcx) * b) + b) / 2"
    using mb b30 pos by (intro fadd_half_exact) simp
  have y1: "fmul (js_num (i div bcx)) (of_int b) = of_int ((i div bcx) * b)"
  proof -
    have "js_num (i div bcx) = of_int (i div bcx)" using d i by (simp add: js_num_exact)
    then show ?thesis using fmul_exact[of "i div bcx" b] db by simp
  qed
  have y2: "fsub (js_num (height img)) (of_int ((i div bcx) * b))
      = of_int (height img - (i div bcx) * b)"
  proof -
    have "js_num (height img) = of_int (height img)" using h by (simp add: js_num_exact)
    then show ?thesis using fsub_exact[of "height img" "(i div bcx) * b"] h db by simp
  qed
  have y3: "fsub (of_int (height img - (i div bcx) * b)) (of_int b / 2)
      = of_int (2 * (height img - (i div bcx) * b) - b) / 2"
    using h db b30 pos by (intro fsub_half_exact) simp
  have nz: "bcx \<noteq> 0" using pos by simp
  show ?thesis
    unfolding readBlock_def Let_def bcx bw r x1 hb x2 y1 y2 y3 blockPixel_def
    using nz by simp
qed

lemma readBlockCount_blocks:
  assumes "4 \<le> readBlockCountX img"
  shows "readBlockCount img = colorToNum (readBlock img 2) + colorToNum (readBlock img 3) * 64"
proof -
  have a: "js_rem 2 (readBlockCountX img) = 2" "2 div readBlockCountX img = 0"
    "js_rem 3 (readBlockCountX img) = 3" "3 div readBlockCountX img = 0"
    using assms by (simp_all add: js_rem_def)
  have n: "js_num 2 = 2" "js_num 3 = 3"
    using js_num_exact[of 2] js_num_exact[of 3] by simp_all
  have c: "fsub (js_num h) (fmul (js_num 0) w) = js_num h" for h w
    unfolding js_num_0 fmul_0 unfolding js_num_def by (rule fsub_0_fl)
  have m: "fmul 2 q = fmul q 2" "fmul 3 q = fmul q 3" for q
    by (simp_all add: fmul_def mult.commute)
  show ?thesis
    unfolding readBlockCount_def readBlock_def Let_def a n c m by simp
qed

lemma js_slice_cong:
  assumes "length xs = length ys" "drop 2 xs = drop 2 ys" "2 \<le> s"
  shows "js_slice s e xs = js_slice s e ys"
proof -
  define k where "k = nat (js_bound (int (length xs)) s)"
  have "drop k xs = drop k ys"
  proof (cases "2 \<le> length xs")
    case True
    have "int k = min s (int (length xs))" using assms(3) by (simp add: k_def js_bound_def)
    with assms(3) True have "2 \<le> int k" by simp
    then have "2 \<le> k" by linarith
    then have "k - 2 + 2 = k" by simp
    then have "drop k xs = drop (k - 2) (drop 2 xs)" "drop k ys = drop (k - 2) (drop 2 ys)"
      by (simp_all only: drop_drop)
    with assms(2) show ?thesis by simp
  next
    case False
    have "int k = min s (int (length xs))" using assms(3) by (simp add: k_def js_bound_def)
    with assms(3) False have "int k = int (length xs)" by simp
    then have "k = length xs" by linarith
    with assms(1) show ?thesis by simp
  qed
  then show ?thesis
    by (simp add: js_slice_def Let_def assms(1)[symmetric] k_def)
qed

lemma mainColors_cong:
  assumes "length xs = length ys" "drop 2 xs = drop 2 ys" "2 \<le> bcx"
  shows "mainColors bcx bc xs = mainColors bcx bc ys"
  using js_slice_cong[OF assms(1,2), of 4] js_slice_cong[OF assms(1,2,3)] assms(1)
  by (simp add: mainColors_def js_slice_from_def)

lemma drop2_blocks:
  assumes "\<forall>i. 0 \<le> i \<and> i \<le> n \<and> i \<noteq> 1 \<longrightarrow> f i = g i"
  shows "drop 2 (map f [0 .. n]) = drop 2 (map g [0 .. n])"
proof (rule nth_equalityI)
  show "length (drop 2 (map f [0 .. n])) = length (drop 2 (map g [0 .. n]))" by simp
next
  fix k assume "k < length (drop 2 (map f [0 .. n]))"
  then have k: "int k + 2 \<le> n" by simp
  then have "[0 .. n] ! (k + 2) = int k + 2"
    using nth_upto[of 0 "k + 2" n] by simp
  moreover have "f (int k + 2) = g (int k + 2)" using assms k by simp
  ultimately show "drop 2 (map f [0 .. n]) ! k = drop 2 (map g [0 .. n]) ! k"
    using k by (simp add: add.commute)
qed

lemma readVersion_is_block_1:
  assumes "2 \<le> readBlockCountX img"
  shows "readVersion img = colorToNum (readBlock img 1)"
proof -
  have a: "js_rem 1 (readBlockCountX img) = 1" "1 div readBlockCountX img = 0"
    using assms by (simp_all add: js_rem_def)
  have b: "fmul (js_num 1) (fdiv p q) = fdiv p q" for p q
    unfolding js_num_1 fdiv_def by (rule fmul_1_fl)
  have c: "fsub (js_num h) (fmul (js_num 0) w) = js_num h" for h w
    unfolding js_num_0 fmul_0 unfolding js_num_def by (rule fsub_0_fl)
  show ?thesis
    unfolding readVersion_def readBlock_def Let_def a b c by simp
qed

text \<open>The example raster: eight blocks of two pixels, so every coordinate is exact.\<close>

lemma example_blockCountX:
  "readBlockCountX (exampleRaster (0, 0, 85, 255)) = 8"
  "readBlockCountX (exampleRaster (0, 0, 170, 255)) = 8"
  by code_simp+

lemma example_readBlock:
  assumes "readBlockCountX (exampleRaster v) = 8" "0 \<le> i" "i < 8"
  shows "readBlock (exampleRaster v) i = getPixelColor (exampleRaster v) (of_int (2 * i + 1)) 1"
proof -
  have "readBlock (exampleRaster v) i =
     getPixelColor (exampleRaster v) (of_int (2 * ((i mod 8) * 2) + 2) / 2)
       (of_int (2 * (height (exampleRaster v) - (i div 8) * 2) - 2) / 2)"
    using assms by (intro readBlock_exact) (simp_all add: exampleRaster_def)
  moreover have "i mod 8 = i" "i div 8 = 0" using assms by simp_all
  moreover have "((4 * of_int i + 2) / 2 :: rat) = 2 * of_int i + 1" by simp
  ultimately show ?thesis by (simp add: exampleRaster_def)
qed

lemma example_pixels:
  "getPixelColor (exampleRaster (0, 0, 85, 255)) 1 1 = (Some 0, Some 0, Some 0)"
  "getPixelColor (exampleRaster (0, 0, 85, 255)) 3 1 = (Some 0, Some 0, Some 85)"
  "getPixelColor (exampleRaster (0, 0, 85, 255)) 5 1 = (Some 0, Some 0, Some 170)"
  "getPixelColor (exampleRaster (0, 0, 85, 255)) 7 1 = (Some 0, Some 0, Some 0)"
  "getPixelColor (exampleRaster (0, 0, 85, 255)) 9 1 = (Some 255, Some 0, Some 0)"
  "getPixelColor (exampleRaster (0, 0, 85, 255)) 11 1 = (Some 0, Some 255, Some 0)"
  "getPixelColor (exampleRaster (0, 0, 85, 255)) 13 1 = (Some 0, Some 0, Some 0)"
  "getPixelColor (exampleRaster (0, 0, 170, 255)) 1 1 = (Some 0, Some 0, Some 0)"
  "getPixelColor (exampleRaster (0, 0, 170, 255)) 3 1 = (Some 0, Some 0, Some 170)"
  "getPixelColor (exampleRaster (0, 0, 170, 255)) 5 1 = (Some 0, Some 0, Some 170)"
  "getPixelColor (exampleRaster (0, 0, 170, 255)) 7 1 = (Some 0, Some 0, Some 0)"
  "getPixelColor (exampleRaster (0, 0, 170, 255)) 9 1 = (Some 255, Some 0, Some 0)"
  "getPixelColor (exampleRaster (0, 0, 170, 255)) 11 1 = (Some 0, Some 255, Some 0)"
  "getPixelColor (exampleRaster (0, 0, 170, 255)) 13 1 = (Some 0, Some 0, Some 0)"
  by code_simp+

lemma example_symbols:
  "colorToNum (Some 0, Some 0, Some 0) = 0"
  "colorToNum (Some 0, Some 0, Some 85) = 1"
  "colorToNum (Some 0, Some 0, Some 170) = 2"
  by code_simp+

lemma example_blocks_v1:
  "readBlock (exampleRaster (0, 0, 85, 255)) 0 = (Some 0, Some 0, Some 0)"
  "readBlock (exampleRaster (0, 0, 85, 255)) 1 = (Some 0, Some 0, Some 85)"
  "readBlock (exampleRaster (0, 0, 85, 255)) 2 = (Some 0, Some 0, Some 170)"
  "readBlock (exampleRaster (0, 0, 85, 255)) 3 = (Some 0, Some 0, Some 0)"
  "readBlock (exampleRaster (0, 0, 85, 255)) 4 = (Some 255, Some 0, Some 0)"
  "readBlock (exampleRaster (0, 0, 85, 255)) 5 = (Some 0, Some 255, Some 0)"
  "readBlock (exampleRaster (0, 0, 85, 255)) 6 = (Some 0, Some 0, Some 0)"
  using example_readBlock[OF example_blockCountX(1)] example_pixels by simp_all

lemma example_blocks_v2:
  "readBlock (exampleRaster (0, 0, 170, 255)) 0 = (Some 0, Some 0, Some 0)"
  "readBlock (exampleRaster (0, 0, 170, 255)) 1 = (Some 0, Some 0, Some 170)"
  "readBlock (exampleRaster (0, 0, 170, 255)) 2 = (Some 0, Some 0, Some 170)"
  "readBlock (exampleRaster (0, 0, 170, 255)) 3 = (Some 0, Some 0, Some 0)"
  "readBlock (exampleRaster (0, 0, 170, 255)) 4 = (Some 255, Some 0, Some 0)"
  "readBlock (exampleRaster (0, 0, 170, 255)) 5 = (Some 0, Some 255, Some 0)"
  "readBlock (exampleRaster (0, 0, 170, 255)) 6 = (Some 0, Some 0, Some 0)"
  using example_readBlock[OF example_blockCountX(2)] example_pixels by simp_all

lemma example_geometry:
  "readBlockCountX (exampleRaster (0, 0, 85, 255)) = 8"
  "readBlockCountX (exampleRaster (0, 0, 170, 255)) = 8"
  "readBlockCount (exampleRaster (0, 0, 85, 255)) = 2"
  "readBlockCount (exampleRaster (0, 0, 170, 255)) = 2"
  by (simp_all add: example_blockCountX readBlockCount_blocks example_blocks_v1
      example_blocks_v2 example_symbols)

lemma example_versions:
  "readVersion (exampleRaster (0, 0, 85, 255)) = 1"
  "readVersion (exampleRaster (0, 0, 170, 255)) = 2"
  by (simp_all add: example_blockCountX readVersion_is_block_1 example_blocks_v1
      example_blocks_v2 example_symbols)

lemma example_blocks:
  "readBlock (exampleRaster (0, 0, 170, 255)) 0 = readBlock (exampleRaster (0, 0, 85, 255)) 0"
  "readBlock (exampleRaster (0, 0, 170, 255)) 2 = readBlock (exampleRaster (0, 0, 85, 255)) 2"
  "readBlock (exampleRaster (0, 0, 170, 255)) 3 = readBlock (exampleRaster (0, 0, 85, 255)) 3"
  "readBlock (exampleRaster (0, 0, 170, 255)) 4 = readBlock (exampleRaster (0, 0, 85, 255)) 4"
  "readBlock (exampleRaster (0, 0, 170, 255)) 5 = readBlock (exampleRaster (0, 0, 85, 255)) 5"
  "readBlock (exampleRaster (0, 0, 170, 255)) 6 = readBlock (exampleRaster (0, 0, 85, 255)) 6"
  by (simp_all add: example_blocks_v1 example_blocks_v2)

lemma upto_0_6: "[0 .. 6] = [0, 1, 2, 3, 4, 5, 6 :: int]"
  by (simp add: upto_rec1)

lemma example_payload:
  "readColorByteCode (exampleRaster (0, 0, 170, 255))
     = [(Some 255, Some 0, Some 0), (Some 0, Some 255, Some 0)]"
  by (simp add: readColorByteCode_def Let_def example_geometry upto_0_6 example_blocks_v2
      mainColors_def js_slice_nonneg)

text \<open>
  Claim C5, as stated: a raster whose version cell (row 0, column 1) decodes to a symbol
  other than 1 makes decoding fail. \<^verbatim>\<open>readColorByteCode\<close> samples the cell into a local
  that is never read again. In the example raster with symbol 2 in the version cell the
  payload is returned as for version 1.
\<close>

theorem version_not_enforced_counterexample:
  "readVersion (exampleRaster (0, 0, 170, 255)) = 2
   \<and> readVersion (exampleRaster (0, 0, 170, 255)) \<noteq> 1
   \<and> readColorByteCode (exampleRaster (0, 0, 170, 255))
       = [(Some 255, Some 0, Some 0), (Some 0, Some 255, Some 0)]"
  using example_versions example_payload by simp

text \<open>
  Claim C5, amended. The version cell is sampled and not checked: \<^verbatim>\<open>readColorByteCode\<close>
  has no failing path, and what it returns does not depend on the version cell. For a
  raster with at least two blocks per row the version symbol is the symbol of block 1,
  and two rasters with the same block count per row and the same payload length that
  agree on every sampled block other than block 1 are read to the same payload and
  decode to the same result, whatever their version cells hold.
\<close>

theorem version_block_not_checked:
  assumes "readBlockCountX img' = readBlockCountX img"
    and "readBlockCount img' = readBlockCount img"
    and "2 \<le> readBlockCountX img"
    and "\<forall>i. 0 \<le> i \<and> i \<le> readBlockCount img + 4 \<and> i \<noteq> 1 \<longrightarrow> readBlock img' i = readBlock img i"
  shows "readVersion img = colorToNum (readBlock img 1)
     \<and> readColorByteCode img' = readColorByteCode img
     \<and> colorByteCodeToData atob decode dk img' = colorByteCodeToData atob decode dk img"
proof -
  have d: "drop 2 (map (readBlock img') [0 .. readBlockCount img + 4])
      = drop 2 (map (readBlock img) [0 .. readBlockCount img + 4])"
    using assms(4) by (rule drop2_blocks)
  have l: "length (map (readBlock img') [0 .. readBlockCount img + 4])
      = length (map (readBlock img) [0 .. readBlockCount img + 4])" by simp
  have r: "readColorByteCode img' = readColorByteCode img"
    unfolding readColorByteCode_def Let_def assms(1,2)
    using l d assms(3) by (rule mainColors_cong)
  then show ?thesis
    using readVersion_is_block_1[OF assms(3)] by (simp add: colorByteCodeToData_def)
qed


theorem version_block_not_checked_witness:
  "readBlockCountX (exampleRaster (0, 0, 170, 255)) = readBlockCountX (exampleRaster (0, 0, 85, 255))
   \<and> readBlockCount (exampleRaster (0, 0, 170, 255)) = readBlockCount (exampleRaster (0, 0, 85, 255))
   \<and> 2 \<le> readBlockCountX (exampleRaster (0, 0, 85, 255))
   \<and> readVersion (exampleRaster (0, 0, 85, 255)) = 1
   \<and> readVersion (exampleRaster (0, 0, 170, 255)) = 2
   \<and> readColorByteCode (exampleRaster (0, 0, 170, 255))
       = readColorByteCode (exampleRaster (0, 0, 85, 255))"
proof -
  have h4: "\<forall>i. 0 \<le> i \<and> i \<le> readBlockCount (exampleRaster (0, 0, 85, 255)) + 4 \<and> i \<noteq> 1 \<longrightarrow>
      readBlock (exampleRaster (0, 0, 170, 255)) i = readBlock (exampleRaster (0, 0, 85, 255)) i"
  proof (intro allI impI)
    fix i :: int
    assume "0 \<le> i \<and> i \<le> readBlockCount (exampleRaster (0, 0, 85, 255)) + 4 \<and> i \<noteq> 1"
    then have "i = 0 \<or> i = 2 \<or> i = 3 \<or> i = 4 \<or> i = 5 \<or> i = 6"
      by (simp add: example_geometry) arith
    then show "readBlock (exampleRaster (0, 0, 170, 255)) i = readBlock (exampleRaster (0, 0, 85, 255)) i"
      using example_blocks by (elim disjE) simp_all
  qed
  have h1: "readBlockCountX (exampleRaster (0, 0, 170, 255)) = readBlockCountX (exampleRaster (0, 0, 85, 255))"
    and h2: "readBlockCount (exampleRaster (0, 0, 170, 255)) = readBlockCount (exampleRaster (0, 0, 85, 255))"
    and h3: "2 \<le> readBlockCountX (exampleRaster (0, 0, 85, 255))"
    by (simp_all add: example_geometry)
  from version_block_not_checked[OF h1 h2 h3 h4] h1 h2 h3 example_versions
  show ?thesis by simp
qed


end
